theory Spec2Isabelle
  imports Main "HOL-Library.Sublist" "HOL-Library.AList"
begin

section \<open>Values of the program\<close>

text \<open>
  The program is one Python module, \<^verbatim>\<open>admin.py\<close>. Its own code is a thin
  layer of control flow over four collaborators: the object store (boto3's S3 client),
  the PDF loader, the text splitter and the embedding/index library, plus the
  front-end calls \<^verbatim>\<open>st.*\<close>. The embedding keeps every branch, handler and
  call of the module, in the module's order, and makes the collaborators explicit:
  the object store and the scratch directory are fields of a \<open>world\<close> that is passed
  through, every call of a collaborator and every front-end call is appended to the
  world's log, and a call that can raise returns \<open>Inl\<close> of the exception.
\<close>

type_synonym key = string
type_synonym path = string

text \<open>
  Python exceptions, by the classes the handlers of the module tell apart:
  \<^verbatim>\<open>except s3_client.exceptions.ClientError\<close> catches only the first (it carries
  the code of \<^verbatim>\<open>e.response['Error']['Code']\<close>), \<^verbatim>\<open>except Exception\<close>
  catches all three.
\<close>

datatype exn =
    ClientError string
  | ValueError string
  | OtherException string

text \<open>
  A LangChain \<^verbatim>\<open>Document\<close>: the text and the metadata the PDF loader sets
  (\<^verbatim>\<open>source\<close>, \<^verbatim>\<open>page\<close>). Pages and chunks are both documents.
\<close>

record document =
  page_content :: string
  source :: path
  page_no :: nat

type_synonym vector = "int list"

text \<open>
  What an object or a scratch file holds. The byte formats belong to the libraries;
  the model keeps what the program can observe of them: a readable PDF yields its
  pages' texts, any other file makes the loader raise, and the two files written by
  \<^verbatim>\<open>save_local\<close> hold the vectors and the documents of the index.
\<close>

datatype blob =
    Pdf "string list"
  | Unreadable string
  | Faiss_file "vector list"
  | Pkl_file "document list"

datatype style = Email_Style | Normal_Style | Report_Style | Feedback_Style

text \<open>The calls of collaborators, as they appear in the log.\<close>

datatype call =
    Head_bucket
  | Create_bucket
  | List_objects_v2 string
  | Download_file key path
  | Load_and_split path
  | Split_documents nat nat nat
  | From_documents nat
  | Invoke_model string
  | Backoff
  | Save_local string string
  | Upload_file path key

text \<open>The front-end calls, one constructor per call site of the module.\<close>

datatype st =
    Title
  | Write_intro
  | Success_created_bucket
  | Error_create_bucket exn
  | Error_check_bucket exn
  | Error_ensure_failed
  | Write_selected style string
  | Error_listing string exn
  | Warning_no_pdfs string
  | Write_found nat
  | Write_processing key
  | Error_processing key exn
  | Write_added nat key
  | Write_total_chunks nat
  | Write_sample document
  | Write_creating style
  | Error_uploading exn
  | Success_processed style
  | Error_vector_store

datatype event = Call call | St st

text \<open>
  The behaviour of the collaborators that the program does not control: for each
  request, whether the service answers or raises. \<open>request_fault n\<close> is the outcome
  of the \<open>n\<close>-th request sent to the embedding provider, \<open>embedding\<close> the vector
  the provider returns for a text, \<open>max_retries\<close> the bound on the retries of one
  request, and \<open>write_fault\<close> the outcome of writing a file of the scratch directory.
\<close>

record services =
  head_fault :: "exn option"
  create_fault :: "exn option"
  list_fault :: "exn option"
  download_fault :: "key \<Rightarrow> exn option"
  upload_fault :: "key \<Rightarrow> exn option"
  request_fault :: "nat \<Rightarrow> exn option"
  max_retries :: nat
  embedding :: "string \<Rightarrow> vector"
  write_fault :: "path \<Rightarrow> exn option"

text \<open>
  The state the program acts on: the bucket named by \<^verbatim>\<open>BUCKET_NAME\<close>
  (\<open>None\<close> when it does not exist; its objects in listing order), the scratch
  directory \<^verbatim>\<open>/tmp\<close>, the number of calls of \<^verbatim>\<open>FAISS.from_documents\<close>
  made so far, the number of requests sent to the embedding provider so far, and
  the log.
\<close>

record world =
  bucket :: "(key \<times> blob) list option"
  tmp :: "path \<Rightarrow> blob option"
  from_documents_calls :: nat
  provider_requests :: nat
  log :: "event list"

definition emit :: "event \<Rightarrow> world \<Rightarrow> world" where
  "emit e w = w\<lparr>log := log w @ [e]\<rparr>"

section \<open>The object store\<close>

text \<open>
  Modelled from the spec: the object-storage service is an external collaborator,
  given by its interface only (head/create bucket, list objects by prefix, get
  object to local file, put local file as object). A request first meets the
  service's fault, if any; otherwise it acts on the bucket as the interface says.
  The listing answers with every key that starts with the prefix.
\<close>

definition head_bucket :: "services \<Rightarrow> world \<Rightarrow> (exn + unit) \<times> world" where
  "head_bucket E w =
     (let w1 = emit (Call Head_bucket) w in
      case head_fault E of
        Some e \<Rightarrow> (Inl e, w1)
      | None \<Rightarrow>
          (case bucket w1 of
             None \<Rightarrow> (Inl (ClientError ''404''), w1)
           | Some objs \<Rightarrow> (Inr (), w1)))"

definition create_bucket :: "services \<Rightarrow> world \<Rightarrow> (exn + unit) \<times> world" where
  "create_bucket E w =
     (let w1 = emit (Call Create_bucket) w in
      case create_fault E of
        Some e \<Rightarrow> (Inl e, w1)
      | None \<Rightarrow>
          (case bucket w1 of
             None \<Rightarrow> (Inr (), w1\<lparr>bucket := Some []\<rparr>)
           | Some objs \<Rightarrow> (Inr (), w1)))"

definition list_objects_v2 :: "services \<Rightarrow> string \<Rightarrow> world \<Rightarrow> (exn + key list) \<times> world" where
  "list_objects_v2 E pre w =
     (let w1 = emit (Call (List_objects_v2 pre)) w in
      case list_fault E of
        Some e \<Rightarrow> (Inl e, w1)
      | None \<Rightarrow>
          (case bucket w1 of
             None \<Rightarrow> (Inl (ClientError ''NoSuchBucket''), w1)
           | Some objs \<Rightarrow> (Inr (filter (prefix pre) (map fst objs)), w1)))"

definition download_file :: "services \<Rightarrow> key \<Rightarrow> path \<Rightarrow> world \<Rightarrow> (exn + unit) \<times> world" where
  "download_file E k p w =
     (let w1 = emit (Call (Download_file k p)) w in
      case download_fault E k of
        Some e \<Rightarrow> (Inl e, w1)
      | None \<Rightarrow>
          (case bucket w1 of
             None \<Rightarrow> (Inl (ClientError ''404''), w1)
           | Some objs \<Rightarrow>
               (case map_of objs k of
                  None \<Rightarrow> (Inl (ClientError ''404''), w1)
                | Some b \<Rightarrow> (Inr (), w1\<lparr>tmp := (tmp w1)(p \<mapsto> b)\<rparr>))))"

definition upload_file :: "services \<Rightarrow> path \<Rightarrow> key \<Rightarrow> world \<Rightarrow> (exn + unit) \<times> world" where
  "upload_file E p k w =
     (let w1 = emit (Call (Upload_file p k)) w in
      case tmp w1 p of
        None \<Rightarrow> (Inl (OtherException ''FileNotFoundError''), w1)
      | Some b \<Rightarrow>
          (case upload_fault E k of
             Some e \<Rightarrow> (Inl e, w1)
           | None \<Rightarrow>
               (case bucket w1 of
                  None \<Rightarrow> (Inl (ClientError ''NoSuchBucket''), w1)
                | Some objs \<Rightarrow> (Inr (), w1\<lparr>bucket := Some (AList.update k b objs)\<rparr>))))"

text \<open>What a reader of the bucket finds under a key.\<close>

definition published :: "world \<Rightarrow> key \<Rightarrow> blob option" where
  "published w k = (case bucket w of None \<Rightarrow> None | Some objs \<Rightarrow> map_of objs k)"

section \<open>Module initialisation\<close>

text \<open>
  Lines 8 to 14: \<^verbatim>\<open>load_dotenv()\<close>, the construction of the client (no
  request is sent), \<^verbatim>\<open>BUCKET_NAME = os.getenv("BUCKET_NAME")\<close> and the check
  \<^verbatim>\<open>if not BUCKET_NAME: raise ValueError(...)\<close>. The argument is the process
  environment after \<^verbatim>\<open>load_dotenv\<close>; \<^verbatim>\<open>not BUCKET_NAME\<close> holds for
  \<^verbatim>\<open>None\<close> and for the empty string.
\<close>

definition module_init :: "(string \<Rightarrow> string option) \<Rightarrow> exn + string" where
  "module_init environ =
     (case environ ''BUCKET_NAME'' of
        None \<Rightarrow> Inl (ValueError ''BUCKET_NAME environment variable is not set'')
      | Some name \<Rightarrow>
          if name = [] then Inl (ValueError ''BUCKET_NAME environment variable is not set'')
          else Inr name)"

section \<open>ensure_bucket_exists\<close>

definition ensure_bucket_exists :: "services \<Rightarrow> world \<Rightarrow> (exn + bool) \<times> world" where
  "ensure_bucket_exists E w =
     (case head_bucket E w of
        (Inr u, w1) \<Rightarrow> (Inr True, w1)
      | (Inl (ClientError error_code), w1) \<Rightarrow>
          if error_code = ''404'' then
            (case create_bucket E w1 of
               (Inr u, w2) \<Rightarrow> (Inr True, emit (St Success_created_bucket) w2)
             | (Inl create_error, w2) \<Rightarrow>
                 (Inr False, emit (St (Error_create_bucket create_error)) w2))
          else (Inr False, emit (St (Error_check_bucket (ClientError error_code))) w1)
      | (Inl e, w1) \<Rightarrow> (Inl e, w1))"

section \<open>The text splitter\<close>

text \<open>
  Modelled from the spec: the module only constructs
  \<^verbatim>\<open>RecursiveCharacterTextSplitter(chunk_size, chunk_overlap)\<close> and calls its
  \<^verbatim>\<open>split_documents\<close>; the class itself is not part of the sources. The
  definitions follow the spec's Chunker: a chunk is a contiguous piece of one page's
  text of at most \<open>chunk_size\<close> characters, each chunk after the first starts with
  the last \<open>chunk_overlap\<close> characters of the chunk before it, an empty page yields
  no chunk, a page no longer than \<open>chunk_size\<close> yields exactly one, the trailing
  text is never dropped, and every chunk keeps the metadata of its page. The
  invariant \<open>chunk_overlap < chunk_size\<close> is checked when the splitter is
  constructed.
\<close>

function windows :: "nat \<Rightarrow> nat \<Rightarrow> string \<Rightarrow> string list" where
  "windows chunk_size chunk_overlap t =
     (if t = [] then []
      else if length t \<le> chunk_size \<or> chunk_size \<le> chunk_overlap then [t]
      else take chunk_size t
             # windows chunk_size chunk_overlap (drop (chunk_size - chunk_overlap) t))"
  by pat_completeness auto
termination
  by (relation "measure (\<lambda>(chunk_size, chunk_overlap, t). length t)") auto

declare windows.simps [simp del]

definition split_documents :: "nat \<Rightarrow> nat \<Rightarrow> document list \<Rightarrow> document list" where
  "split_documents chunk_size chunk_overlap pages =
     concat (map (\<lambda>p. map (\<lambda>t. p\<lparr>page_content := t\<rparr>)
                            (windows chunk_size chunk_overlap (page_content p))) pages)"

text \<open>Lines 58 to 61.\<close>

definition split_text ::
  "document list \<Rightarrow> nat \<Rightarrow> nat \<Rightarrow> world \<Rightarrow> (exn + document list) \<times> world" where
  "split_text pages chunk_size chunk_overlap w =
     (let w1 = emit (Call (Split_documents (length pages) chunk_size chunk_overlap)) w in
      if chunk_overlap < chunk_size
      then (Inr (split_documents chunk_size chunk_overlap pages), w1)
      else (Inl (ValueError ''chunk_overlap must be smaller than chunk_size''), w1))"

section \<open>The embedding and index library\<close>

text \<open>
  Modelled from the spec: the module only constructs the embedding client (lines 48
  to 52) and hands it to \<^verbatim>\<open>FAISS.from_documents\<close> (line 69); the client and
  the library are not part of the sources. The definitions follow the spec's
  Embedder: one request to the provider per chunk, in order; a request that fails is
  sent again after a backoff, at most \<open>max_retries\<close> times; when the last attempt
  for a chunk fails, the whole embedding fails with that error; otherwise there is
  one vector per chunk, in the order of the chunks. The length of a backoff is time
  and is not modelled, only that it happens.
\<close>

fun embed_query :: "services \<Rightarrow> nat \<Rightarrow> string \<Rightarrow> world \<Rightarrow> (exn + vector) \<times> world" where
  "embed_query E 0 t w =
     (let n = provider_requests w;
          w1 = emit (Call (Invoke_model t)) (w\<lparr>provider_requests := Suc n\<rparr>)
      in case request_fault E n of
           None \<Rightarrow> (Inr (embedding E t), w1)
         | Some e \<Rightarrow> (Inl e, w1))"
| "embed_query E (Suc retries_left) t w =
     (let n = provider_requests w;
          w1 = emit (Call (Invoke_model t)) (w\<lparr>provider_requests := Suc n\<rparr>)
      in case request_fault E n of
           None \<Rightarrow> (Inr (embedding E t), w1)
         | Some e \<Rightarrow> embed_query E retries_left t (emit (Call Backoff) w1))"

fun embed_documents :: "services \<Rightarrow> string list \<Rightarrow> world \<Rightarrow> (exn + vector list) \<times> world" where
  "embed_documents E [] w = (Inr [], w)"
| "embed_documents E (t # ts) w =
     (case embed_query E (max_retries E) t w of
        (Inl e, w1) \<Rightarrow> (Inl e, w1)
      | (Inr v, w1) \<Rightarrow>
          (case embed_documents E ts w1 of
             (Inl e, w2) \<Rightarrow> (Inl e, w2)
           | (Inr vs, w2) \<Rightarrow> (Inr (v # vs), w2)))"

text \<open>
  \<^verbatim>\<open>FAISS.from_documents(documents, bedrock_embeddings)\<close> embeds the texts of
  the documents and returns an index holding the vectors next to the documents, or
  raises what the embedding raises.
\<close>

record faiss =
  vectors :: "vector list"
  docstore :: "document list"

definition from_documents :: "services \<Rightarrow> document list \<Rightarrow> world \<Rightarrow> (exn + faiss) \<times> world" where
  "from_documents E documents w =
     (let w1 = emit (Call (From_documents (length documents)))
                 (w\<lparr>from_documents_calls := Suc (from_documents_calls w)\<rparr>)
      in case embed_documents E (map page_content documents) w1 of
           (Inl e, w2) \<Rightarrow> (Inl e, w2)
         | (Inr vs, w2) \<Rightarrow> (Inr \<lparr>vectors = vs, docstore = documents\<rparr>, w2))"

text \<open>
  \<^verbatim>\<open>save_local\<close> writes the file of the index and then the file of the
  documents into the folder. Either write can fail; a failed write raises and leaves
  what was written before it.
\<close>

definition save_local :: "services \<Rightarrow> faiss \<Rightarrow> string \<Rightarrow> string \<Rightarrow> world \<Rightarrow> (exn + unit) \<times> world" where
  "save_local E ix index_name folder_path w =
     (let w1 = emit (Call (Save_local index_name folder_path)) w;
          faiss_path = folder_path @ index_name @ ''.faiss'';
          pkl_path = folder_path @ index_name @ ''.pkl''
      in case write_fault E faiss_path of
           Some e \<Rightarrow> (Inl e, w1)
         | None \<Rightarrow>
             (let w2 = w1\<lparr>tmp := (tmp w1)(faiss_path \<mapsto> Faiss_file (vectors ix))\<rparr>
              in case write_fault E pkl_path of
                   Some e \<Rightarrow> (Inl e, w2)
                 | None \<Rightarrow>
                     (Inr (), w2\<lparr>tmp := (tmp w2)(pkl_path \<mapsto> Pkl_file (docstore ix))\<rparr>)))"

section \<open>create_vector_store\<close>

text \<open>
  Lines 64 to 95. \<^verbatim>\<open>from_documents\<close> and \<^verbatim>\<open>save_local\<close> stand before the
  \<^verbatim>\<open>try\<close>, so what they raise leaves the function; the two uploads are inside
  it, the file of the index first.
  \<^verbatim>\<open>os.path.join("/tmp/", name)\<close> is the concatenation.
\<close>

definition create_vector_store ::
  "services \<Rightarrow> string \<Rightarrow> document list \<Rightarrow> world \<Rightarrow> (exn + bool) \<times> world" where
  "create_vector_store E style_key documents w =
     (case from_documents E documents w of
        (Inl e, w1) \<Rightarrow> (Inl e, w1)
      | (Inr vectorstore_faiss, w1) \<Rightarrow>
          (let folder_path = ''/tmp/'';
               faiss_index_name = ''my_faiss_'' @ style_key;
               faiss_index_file = faiss_index_name @ ''.faiss'';
               faiss_pkl_file = faiss_index_name @ ''.pkl''
           in case save_local E vectorstore_faiss faiss_index_name folder_path w1 of
                (Inl e, w2) \<Rightarrow> (Inl e, w2)
              | (Inr s, w2) \<Rightarrow>
                  (case upload_file E (folder_path @ faiss_index_file) faiss_index_file w2 of
                     (Inl e, w3) \<Rightarrow> (Inr False, emit (St (Error_uploading e)) w3)
                   | (Inr u, w3) \<Rightarrow>
                       (case upload_file E (folder_path @ faiss_pkl_file) faiss_pkl_file w3 of
                          (Inl e, w4) \<Rightarrow> (Inr False, emit (St (Error_uploading e)) w4)
                        | (Inr u', w4) \<Rightarrow> (Inr True, w4)))))"

section \<open>list_pdfs_in_s3\<close>

text \<open>
  \<^verbatim>\<open>str.lower\<close> on the letters that matter for the test: a key is a string of
  bytes here, and no character outside \<open>A\<close> to \<open>Z\<close> lowers to one of the four
  characters of \<^verbatim>\<open>.pdf\<close>.
\<close>

definition lower_char :: "char \<Rightarrow> char" where
  "lower_char c =
     (case map_of (zip ''ABCDEFGHIJKLMNOPQRSTUVWXYZ'' ''abcdefghijklmnopqrstuvwxyz'') c of
        Some l \<Rightarrow> l
      | None \<Rightarrow> c)"

definition lower :: "string \<Rightarrow> string" where
  "lower s = map lower_char s"

definition endswith :: "string \<Rightarrow> string \<Rightarrow> bool" where
  "endswith s suf = suffix suf s"

text \<open>Lines 97 to 111.\<close>

definition list_pdfs_in_s3 :: "services \<Rightarrow> string \<Rightarrow> world \<Rightarrow> key list \<times> world" where
  "list_pdfs_in_s3 E pre w =
     (case list_objects_v2 E pre w of
        (Inr contents, w1) \<Rightarrow> (filter (\<lambda>k. endswith (lower k) ''.pdf'') contents, w1)
      | (Inl e, w1) \<Rightarrow> ([], emit (St (Error_listing pre e)) w1))"

section \<open>download_and_process_pdf\<close>

definition basename :: "string \<Rightarrow> string" where
  "basename p = rev (takeWhile (\<lambda>c. c \<noteq> CHR ''/'') (rev p))"

text \<open>
  Modelled from the spec: the PDF text-extraction library turns the bytes of a file
  into its ordered pages with page metadata, and fails on a file it cannot read.
\<close>

definition load_and_split :: "path \<Rightarrow> world \<Rightarrow> (exn + document list) \<times> world" where
  "load_and_split local_file w =
     (let w1 = emit (Call (Load_and_split local_file)) w in
      case tmp w1 local_file of
        Some (Pdf texts) \<Rightarrow>
          (Inr (map (\<lambda>(i, t). \<lparr>page_content = t, source = local_file, page_no = i\<rparr>)
                    (enumerate 0 texts)), w1)
      | Some other \<Rightarrow> (Inl (OtherException ''PdfReadError''), w1)
      | None \<Rightarrow> (Inl (OtherException ''FileNotFoundError''), w1))"

text \<open>Lines 113 to 126; \<open>None\<close> is Python's \<^verbatim>\<open>None\<close>.\<close>

definition download_and_process_pdf ::
  "services \<Rightarrow> key \<Rightarrow> world \<Rightarrow> document list option \<times> world" where
  "download_and_process_pdf E s3_key w =
     (let local_file = ''/tmp/'' @ basename s3_key in
      case download_file E s3_key local_file w of
        (Inl e, w1) \<Rightarrow> (None, emit (St (Error_processing s3_key e)) w1)
      | (Inr u, w1) \<Rightarrow>
          (case load_and_split local_file w1 of
             (Inl e, w2) \<Rightarrow> (None, emit (St (Error_processing s3_key e)) w2)
           | (Inr pages, w2) \<Rightarrow> (Some pages, w2)))"

section \<open>main\<close>

fun prefix_map :: "style \<Rightarrow> string" where
  "prefix_map Email_Style = ''mail/''"
| "prefix_map Normal_Style = ''normal/''"
| "prefix_map Report_Style = ''report/''"
| "prefix_map Feedback_Style = ''feedback/''"

fun style_key_map :: "style \<Rightarrow> string" where
  "style_key_map Email_Style = ''mail''"
| "style_key_map Normal_Style = ''normal''"
| "style_key_map Report_Style = ''report''"
| "style_key_map Feedback_Style = ''feedback''"

text \<open>
  The loop of lines 175 to 180. \<^verbatim>\<open>if pages:\<close> is false for \<^verbatim>\<open>None\<close> and
  for the empty list.
\<close>

fun process_pdfs ::
  "services \<Rightarrow> key list \<Rightarrow> document list \<Rightarrow> world \<Rightarrow> document list \<times> world" where
  "process_pdfs E [] all_pages w = (all_pages, w)"
| "process_pdfs E (pdf_file # rest) all_pages w =
     (case download_and_process_pdf E pdf_file (emit (St (Write_processing pdf_file)) w) of
        (Some pages, w1) \<Rightarrow>
          if pages \<noteq> []
          then process_pdfs E rest (all_pages @ pages)
                 (emit (St (Write_added (length pages) pdf_file)) w1)
          else process_pdfs E rest all_pages w1
      | (None, w1) \<Rightarrow> process_pdfs E rest all_pages w1)"

text \<open>Lines 188 to 192: the first chunk, and the second when there is one.\<close>

definition show_samples :: "document list \<Rightarrow> world \<Rightarrow> world" where
  "show_samples splitted_docs w =
     (case splitted_docs of
        [] \<Rightarrow> w
      | [d] \<Rightarrow> emit (St (Write_sample d)) w
      | d # d' # ds \<Rightarrow> emit (St (Write_sample d')) (emit (St (Write_sample d)) w))"

text \<open>
  Lines 128 to 201. The two inputs of a run are the answer of \<^verbatim>\<open>st.radio\<close> and
  of \<^verbatim>\<open>st.button\<close>. An exception that no handler catches ends the run: \<open>Inl\<close>.
\<close>

definition main :: "services \<Rightarrow> style \<Rightarrow> bool \<Rightarrow> world \<Rightarrow> (exn + unit) \<times> world" where
  "main E style_choice button w =
     (case ensure_bucket_exists E (emit (St Write_intro) (emit (St Title) w)) of
        (Inl e, w1) \<Rightarrow> (Inl e, w1)
      | (Inr ok, w1) \<Rightarrow>
          if \<not> ok then (Inr (), emit (St Error_ensure_failed) w1)
          else
            (let selected_prefix = prefix_map style_choice;
                 style_key = style_key_map style_choice
             in case list_pdfs_in_s3 E selected_prefix
                       (emit (St (Write_selected style_choice selected_prefix)) w1) of
                  (pdf_files, w3) \<Rightarrow>
                    if pdf_files = [] then (Inr (), emit (St (Warning_no_pdfs selected_prefix)) w3)
                    else if \<not> button then (Inr (), emit (St (Write_found (length pdf_files))) w3)
                    else
                      (case process_pdfs E pdf_files []
                              (emit (St (Write_found (length pdf_files))) w3) of
                         (all_pages, w5) \<Rightarrow>
                           if all_pages = [] then (Inr (), w5)
                           else
                             (case split_text all_pages 1000 200 w5 of
                                (Inl e, w6) \<Rightarrow> (Inl e, w6)
                              | (Inr splitted_docs, w6) \<Rightarrow>
                                  (case create_vector_store E style_key splitted_docs
                                          (emit (St (Write_creating style_choice))
                                             (show_samples splitted_docs
                                                (emit (St (Write_total_chunks (length splitted_docs))) w6))) of
                                     (Inl e, w10) \<Rightarrow> (Inl e, w10)
                                   | (Inr result, w10) \<Rightarrow>
                                       if result then (Inr (), emit (St (Success_processed style_choice)) w10)
                                       else (Inr (), emit (St Error_vector_store) w10))))))"

text \<open>
  The whole script: the module's initialisation, then \<^verbatim>\<open>main()\<close>.
\<close>

definition run :: "(string \<Rightarrow> string option) \<Rightarrow> services \<Rightarrow> style \<Rightarrow> bool \<Rightarrow> world \<Rightarrow> (exn + unit) \<times> world" where
  "run environ E style_choice button w =
     (case module_init environ of
        Inl e \<Rightarrow> (Inl e, w)
      | Inr bucket_name \<Rightarrow> main E style_choice button w)"

section \<open>Observations on a run\<close>

text \<open>
  The calls of collaborators in a log, and the calls a run has added to the log of
  the world it started in (the log only grows).
\<close>

fun calls :: "event list \<Rightarrow> call list" where
  "calls [] = []"
| "calls (Call c # es) = c # calls es"
| "calls (St s # es) = calls es"

definition calls_since :: "world \<Rightarrow> world \<Rightarrow> call list" where
  "calls_since w w' = calls (drop (length (log w)) (log w'))"

text \<open>The keys of the downloads among the calls, in order.\<close>

fun downloads :: "call list \<Rightarrow> key list" where
  "downloads [] = []"
| "downloads (Download_file k p # cs) = k # downloads cs"
| "downloads (c # cs) = downloads cs"

text \<open>
  The pages of a document that loads: what the loader extracts from the file
  downloaded for the key; none when the download or the extraction fails. This
  follows the words of the claim about the loop, not the code of
  \<open>download_and_process_pdf\<close>.
\<close>

definition readable_pages :: "services \<Rightarrow> world \<Rightarrow> key \<Rightarrow> document list" where
  "readable_pages E w k =
     (case download_file E k (''/tmp/'' @ basename k) w of
        (Inl e, w1) \<Rightarrow> []
      | (Inr u, w1) \<Rightarrow>
          (case fst (load_and_split (''/tmp/'' @ basename k) w1) of
             Inl e \<Rightarrow> []
           | Inr pages \<Rightarrow> pages))"

text \<open>
  The calls of \<open>k\<close> attempts for one text: the requests, with a backoff between
  each two.
\<close>

fun attempts :: "string \<Rightarrow> nat \<Rightarrow> call list" where
  "attempts t 0 = []"
| "attempts t (Suc 0) = [Invoke_model t]"
| "attempts t (Suc (Suc k)) = Invoke_model t # Backoff # attempts t (Suc k)"

text \<open>
  The keys under which \<open>create_vector_store\<close> uploads the two files of a style, and
  the file of the index built from a sequence of documents: one vector per document.
\<close>

definition faiss_key :: "string \<Rightarrow> key" where
  "faiss_key style_key = ''my_faiss_'' @ style_key @ ''.faiss''"

definition pkl_key :: "string \<Rightarrow> key" where
  "pkl_key style_key = ''my_faiss_'' @ style_key @ ''.pkl''"

definition new_faiss :: "services \<Rightarrow> document list \<Rightarrow> blob" where
  "new_faiss E documents = Faiss_file (map (\<lambda>d. embedding E (page_content d)) documents)"

text \<open>The spellings of the suffix that differ from \<^verbatim>\<open>.pdf\<close> in case only.\<close>

definition pdf_suffixes :: "string list" where
  "pdf_suffixes = [''.pdf'', ''.pdF'', ''.pDf'', ''.pDF'', ''.Pdf'', ''.PdF'', ''.PDf'', ''.PDF'']"

section \<open>Example inputs\<close>

text \<open>
  A service that never fails, and a bucket with a file that is not a PDF under a
  \<^verbatim>\<open>.PDF\<close> name, a readable PDF of one page, a text file, and the pair of
  files an earlier run published for the style \<^verbatim>\<open>mail\<close>.
\<close>

definition no_faults :: services where
  "no_faults =
     \<lparr>head_fault = None, create_fault = None, list_fault = None,
      download_fault = (\<lambda>k. None), upload_fault = (\<lambda>k. None),
      request_fault = (\<lambda>n. None), max_retries = 2,
      embedding = (\<lambda>t. [int (length t)]), write_fault = (\<lambda>p. None)\<rparr>"

definition old_document :: document where
  "old_document = \<lparr>page_content = ''old text'', source = ''/tmp/old.pdf'', page_no = 0\<rparr>"

definition new_document :: document where
  "new_document = \<lparr>page_content = ''hello world'', source = ''/tmp/b.pdf'', page_no = 0\<rparr>"

definition mail_bucket :: "(key \<times> blob) list" where
  "mail_bucket =
     [(''mail/a.PDF'', Unreadable ''not a pdf''),
      (''mail/b.pdf'', Pdf [''hello world'']),
      (''mail/notes.txt'', Unreadable ''notes''),
      (''my_faiss_mail.faiss'', Faiss_file [[8]]),
      (''my_faiss_mail.pkl'', Pkl_file [old_document])]"

definition mail_world :: world where
  "mail_world = \<lparr>bucket = Some mail_bucket, tmp = (\<lambda>p. None), from_documents_calls = 0,
      provider_requests = 0, log = []\<rparr>"

definition no_bucket_world :: world where
  "no_bucket_world = \<lparr>bucket = None, tmp = (\<lambda>p. None), from_documents_calls = 0,
      provider_requests = 0, log = []\<rparr>"

text \<open>A service whose existence check cannot reach the endpoint.\<close>

definition network_down :: services where
  "network_down = no_faults\<lparr>head_fault := Some (OtherException ''EndpointConnectionError'')\<rparr>"

text \<open>A service that refuses the existence check (a permissions error).\<close>

definition forbidden :: services where
  "forbidden = no_faults\<lparr>head_fault := Some (ClientError ''403'')\<rparr>"

text \<open>A service whose listing call times out.\<close>

definition listing_down :: services where
  "listing_down = no_faults\<lparr>list_fault := Some (OtherException ''ConnectTimeoutError'')\<rparr>"

text \<open>A service on which the upload of the metadata file of \<^verbatim>\<open>mail\<close> fails.\<close>

definition pkl_upload_fails :: services where
  "pkl_upload_fails =
     no_faults\<lparr>upload_fault :=
       (\<lambda>k. if k = ''my_faiss_mail.pkl'' then Some (OtherException ''S3UploadFailedError'')
            else None)\<rparr>"


definition provider_down :: services where
  "provider_down =
     no_faults\<lparr>request_fault := (\<lambda>n. Some (OtherException ''ThrottlingException''))\<rparr>"

text \<open>A scratch directory on which the file of the documents cannot be written.\<close>

definition disk_full :: services where
  "disk_full =
     no_faults\<lparr>write_fault :=
       (\<lambda>p. if p = ''/tmp/my_faiss_mail.pkl'' then Some (OtherException ''OSError'') else None)\<rparr>"

text \<open>A service that refuses to create a bucket.\<close>

definition create_denied :: services where
  "create_denied = no_faults\<lparr>create_fault := Some (ClientError ''AccessDenied'')\<rparr>"

text \<open>A service on which the upload of the index file of \<^verbatim>\<open>mail\<close> fails.\<close>

definition faiss_upload_fails :: services where
  "faiss_upload_fails =
     no_faults\<lparr>upload_fault :=
       (\<lambda>k. if k = ''my_faiss_mail.faiss'' then Some (OtherException ''S3UploadFailedError'')
            else None)\<rparr>"

section \<open>What each step leaves unchanged\<close>

lemma calls_append: "calls (xs @ ys) = calls xs @ calls ys"
  by (induction xs rule: calls.induct) simp_all

lemma calls_since_append: "log w' = log w @ es \<Longrightarrow> calls_since w w' = calls es"
  by (simp add: calls_since_def)

lemma log_emit: "log (emit e w) = log w @ [e]"
  by (simp add: emit_def)

lemma bucket_emit: "bucket (emit e w) = bucket w"
  by (simp add: emit_def)

lemma tmp_emit: "tmp (emit e w) = tmp w"
  by (simp add: emit_def)

lemma count_emit: "from_documents_calls (emit e w) = from_documents_calls w"
  by (simp add: emit_def)

lemma published_emit: "published (emit e w) = published w"
  by (rule ext) (simp add: published_def emit_def)

lemma ensure_bucket_exists_frame:
  assumes "ensure_bucket_exists E w = (r, w')"
  shows "tmp w' = tmp w \<and> from_documents_calls w' = from_documents_calls w
       \<and> published w' = published w
       \<and> (\<exists>es. log w' = log w @ es \<and> set (calls es) \<subseteq> {Head_bucket, Create_bucket})"
  using assms
  by (auto simp: ensure_bucket_exists_def head_bucket_def create_bucket_def Let_def emit_def
        published_def fun_eq_iff
      split: option.splits exn.splits if_splits)

lemma list_pdfs_in_s3_frame:
  assumes "list_pdfs_in_s3 E pre w = (ks, w')"
  shows "tmp w' = tmp w \<and> from_documents_calls w' = from_documents_calls w
       \<and> bucket w' = bucket w
       \<and> (\<exists>es. log w' = log w @ es \<and> calls es = [List_objects_v2 pre])"
  using assms
  by (auto simp: list_pdfs_in_s3_def list_objects_v2_def Let_def emit_def
      split: option.splits)

lemma main_ensure_not_true:
  assumes "ensure_bucket_exists E (emit (St Write_intro) (emit (St Title) w)) = (r, w1)"
    and "r \<noteq> Inr True"
  shows "fst (main E style_choice button w) = (case r of Inl e \<Rightarrow> Inl e | Inr ok \<Rightarrow> Inr ())
       \<and> set (calls_since w (snd (main E style_choice button w))) \<subseteq> {Head_bucket, Create_bucket}"
proof -
  from ensure_bucket_exists_frame [OF assms(1)]
  obtain es where es: "log w1 = log w @ [St Title, St Write_intro] @ es"
      "set (calls es) \<subseteq> {Head_bucket, Create_bucket}"
    by (auto simp: log_emit)
  show ?thesis
  proof (cases r)
    case (Inl e)
    with assms es show ?thesis
      by (simp add: main_def calls_since_def calls_append)
  next
    case (Inr ok)
    with assms have "\<not> ok" by simp
    with Inr assms es show ?thesis
      by (simp add: main_def calls_since_def calls_append log_emit)
  qed
qed

lemma main_no_pdfs:
  assumes ens: "ensure_bucket_exists E (emit (St Write_intro) (emit (St Title) w)) = (Inr True, w1)"
    and lst: "list_pdfs_in_s3 E (prefix_map style_choice)
                (emit (St (Write_selected style_choice (prefix_map style_choice))) w1) = ([], w3)"
  shows "main E style_choice button w
           = (Inr (), emit (St (Warning_no_pdfs (prefix_map style_choice))) w3)"
  using ens lst by (simp add: main_def Let_def)

section \<open>The chunker\<close>

lemma windows_length:
  "chunk_overlap < chunk_size \<Longrightarrow> t' \<in> set (windows chunk_size chunk_overlap t)
     \<Longrightarrow> length t' \<le> chunk_size"
proof (induction chunk_size chunk_overlap t rule: windows.induct)
  case (1 cs co t)
  show ?case
  proof (cases "t = [] \<or> length t \<le> cs")
    case True
    with "1.prems" show ?thesis
      by (auto simp: windows.simps [of cs co t] split: if_splits)
  next
    case False
    with "1.prems" "1.IH" show ?thesis
      by (auto simp: windows.simps [of cs co t])
  qed
qed

lemma split_documents_length:
  assumes "chunk_overlap < chunk_size"
    and "c \<in> set (split_documents chunk_size chunk_overlap pages)"
  shows "length (page_content c) \<le> chunk_size"
  using assms by (auto simp: split_documents_def dest: windows_length)

text \<open>
  C3. For every sequence of pages and every pair of parameters with
  \<open>chunk_overlap < chunk_size\<close>, \<open>split_text\<close> returns a sequence of chunks and no
  chunk is longer than \<open>chunk_size\<close> characters; in particular no chunk of the
  pipeline's call with 1000 and 200 is longer than 1000 characters.
\<close>

theorem split_text_chunk_length:
  assumes "chunk_overlap < chunk_size"
  shows "(\<exists>chunks. fst (split_text pages chunk_size chunk_overlap w) = Inr chunks
            \<and> (\<forall>c \<in> set chunks. length (page_content c) \<le> chunk_size))
       \<and> (\<exists>chunks. fst (split_text pages 1000 200 w) = Inr chunks
            \<and> (\<forall>c \<in> set chunks. length (page_content c) \<le> 1000))"
proof -
  have "200 < (1000::nat)" by simp
  then have "\<forall>c \<in> set (split_documents 1000 200 pages). length (page_content c) \<le> 1000"
    using split_documents_length by blast
  moreover have "\<forall>c \<in> set (split_documents chunk_size chunk_overlap pages).
      length (page_content c) \<le> chunk_size"
    using assms split_documents_length by blast
  ultimately show ?thesis
    using assms by (simp add: split_text_def Let_def)
qed

theorem split_text_chunk_length_witness:
  "(2::nat) < 5
   \<and> fst (split_text [new_document] 5 2 mail_world)
       = Inr [new_document\<lparr>page_content := ''hello''\<rparr>,
              new_document\<lparr>page_content := ''lo wo''\<rparr>,
              new_document\<lparr>page_content := ''world''\<rparr>]
   \<and> (\<exists>chunks. fst (split_text [new_document] 5 2 mail_world) = Inr chunks
         \<and> list_all (\<lambda>c. length (page_content c) \<le> 5) chunks)"
proof -
  have h: "(2::nat) < 5" by simp
  have run: "fst (split_text [new_document] 5 2 mail_world)
       = Inr [new_document\<lparr>page_content := ''hello''\<rparr>,
              new_document\<lparr>page_content := ''lo wo''\<rparr>,
              new_document\<lparr>page_content := ''world''\<rparr>]"
    by (simp add: split_text_def split_documents_def new_document_def windows.simps Let_def)
  from split_text_chunk_length [OF h, of "[new_document]" mail_world]
  have "\<exists>chunks. fst (split_text [new_document] 5 2 mail_world) = Inr chunks
         \<and> list_all (\<lambda>c. length (page_content c) \<le> 5) chunks"
    by (simp add: list_all_iff)
  with h run show ?thesis by simp
qed

section \<open>Module initialisation\<close>

text \<open>
  C8. A missing \<^verbatim>\<open>BUCKET_NAME\<close> is fatal at startup: the initialisation of the
  module raises \<^verbatim>\<open>ValueError\<close>, and the run ends with it before any call of
  the object store or of the pipeline (the world, its log included, is the one the
  run started in).
\<close>

theorem missing_bucket_name_is_fatal:
  assumes "environ ''BUCKET_NAME'' = None"
  shows "module_init environ = Inl (ValueError ''BUCKET_NAME environment variable is not set'')
       \<and> run environ E style_choice button w
           = (Inl (ValueError ''BUCKET_NAME environment variable is not set''), w)"
  using assms by (simp add: module_init_def run_def)

theorem missing_bucket_name_is_fatal_witness:
  "(Map.empty :: string \<Rightarrow> string option) ''BUCKET_NAME'' = None
   \<and> run Map.empty no_faults Email_Style True mail_world
       = (Inl (ValueError ''BUCKET_NAME environment variable is not set''), mail_world)"
proof -
  have h: "(Map.empty :: string \<Rightarrow> string option) ''BUCKET_NAME'' = None" by simp
  from missing_bucket_name_is_fatal [OF h, of no_faults Email_Style True mail_world]
  show ?thesis by simp
qed

section \<open>ensure_bucket_exists\<close>

text \<open>
  C9, as the claim states it, fails: a failure of the existence check that is not a
  \<^verbatim>\<open>ClientError\<close> (the endpoint cannot be reached) is not caught by
  \<^verbatim>\<open>except s3_client.exceptions.ClientError\<close>, so \<open>ensure_bucket_exists\<close>
  does not return \<^verbatim>\<open>False\<close>: the exception leaves it.
\<close>

theorem ensure_bucket_exists_counterexample:
  "fst (ensure_bucket_exists network_down mail_world)
     = Inl (OtherException ''EndpointConnectionError'')
   \<and> fst (ensure_bucket_exists network_down mail_world) \<noteq> Inr False"
  by (simp add: ensure_bucket_exists_def head_bucket_def network_down_def no_faults_def
      mail_world_def Let_def emit_def)

text \<open>
  C9, amended. \<open>ensure_bucket_exists\<close> returns \<^verbatim>\<open>True\<close> and leaves the bucket
  as it is when the existence check succeeds; when the check fails with a
  \<^verbatim>\<open>ClientError\<close> of code \<^verbatim>\<open>404\<close> it creates the bucket and returns
  \<^verbatim>\<open>True\<close> if the creation succeeds, \<^verbatim>\<open>False\<close> if the creation fails in
  any way; when the check fails with a \<^verbatim>\<open>ClientError\<close> of any other code it
  returns \<^verbatim>\<open>False\<close>; when the check fails with an exception that is not a
  \<^verbatim>\<open>ClientError\<close>, that exception leaves the function. A call that returned
  \<^verbatim>\<open>True\<close> can be repeated: it returns \<^verbatim>\<open>True\<close> again and the bucket stays
  the same. Whenever \<open>ensure_bucket_exists\<close> does not return \<^verbatim>\<open>True\<close>,
  \<open>main\<close> ends (with the exception, if there is one) and has called nothing but
  the existence check and the creation: no listing and no processing.
\<close>

theorem ensure_bucket_exists_outcomes:
  "(fst (head_bucket E w) = Inr () \<longrightarrow>
      fst (ensure_bucket_exists E w) = Inr True
      \<and> bucket (snd (ensure_bucket_exists E w)) = bucket w)
   \<and> (fst (head_bucket E w) = Inl (ClientError ''404'')
        \<and> fst (create_bucket E (snd (head_bucket E w))) = Inr () \<longrightarrow>
      fst (ensure_bucket_exists E w) = Inr True
      \<and> bucket (snd (ensure_bucket_exists E w)) \<noteq> None)
   \<and> (\<forall>e. fst (head_bucket E w) = Inl (ClientError ''404'')
        \<and> fst (create_bucket E (snd (head_bucket E w))) = Inl e \<longrightarrow>
      fst (ensure_bucket_exists E w) = Inr False)
   \<and> (\<forall>code. fst (head_bucket E w) = Inl (ClientError code) \<and> code \<noteq> ''404'' \<longrightarrow>
      fst (ensure_bucket_exists E w) = Inr False)
   \<and> (\<forall>e. fst (head_bucket E w) = Inl e \<and> (\<forall>code. e \<noteq> ClientError code) \<longrightarrow>
      fst (ensure_bucket_exists E w) = Inl e)
   \<and> (fst (ensure_bucket_exists E w) = Inr True \<longrightarrow>
      fst (ensure_bucket_exists E (snd (ensure_bucket_exists E w))) = Inr True
      \<and> bucket (snd (ensure_bucket_exists E (snd (ensure_bucket_exists E w))))
          = bucket (snd (ensure_bucket_exists E w)))
   \<and> (fst (ensure_bucket_exists E (emit (St Write_intro) (emit (St Title) w))) \<noteq> Inr True \<longrightarrow>
      fst (main E style_choice button w)
        = (case fst (ensure_bucket_exists E (emit (St Write_intro) (emit (St Title) w))) of
             Inl e \<Rightarrow> Inl e | Inr ok \<Rightarrow> Inr ())
      \<and> set (calls_since w (snd (main E style_choice button w))) \<subseteq> {Head_bucket, Create_bucket})"
proof -
  have 1: "fst (head_bucket E w) = Inr () \<longrightarrow>
      fst (ensure_bucket_exists E w) = Inr True
      \<and> bucket (snd (ensure_bucket_exists E w)) = bucket w"
    by (auto simp: ensure_bucket_exists_def head_bucket_def Let_def emit_def split: option.splits)
  have 2: "fst (head_bucket E w) = Inl (ClientError ''404'')
        \<and> fst (create_bucket E (snd (head_bucket E w))) = Inr () \<longrightarrow>
      fst (ensure_bucket_exists E w) = Inr True
      \<and> bucket (snd (ensure_bucket_exists E w)) \<noteq> None"
    by (auto simp: ensure_bucket_exists_def head_bucket_def create_bucket_def Let_def emit_def
        split: option.splits)
  have 3: "\<forall>e. fst (head_bucket E w) = Inl (ClientError ''404'')
        \<and> fst (create_bucket E (snd (head_bucket E w))) = Inl e \<longrightarrow>
      fst (ensure_bucket_exists E w) = Inr False"
    by (auto simp: ensure_bucket_exists_def head_bucket_def create_bucket_def Let_def emit_def
        split: option.splits)
  have 4: "\<forall>code. fst (head_bucket E w) = Inl (ClientError code) \<and> code \<noteq> ''404'' \<longrightarrow>
      fst (ensure_bucket_exists E w) = Inr False"
    by (auto simp: ensure_bucket_exists_def head_bucket_def Let_def emit_def
        split: option.splits)
  have 5: "\<forall>e. fst (head_bucket E w) = Inl e \<and> (\<forall>code. e \<noteq> ClientError code) \<longrightarrow>
      fst (ensure_bucket_exists E w) = Inl e"
    by (auto simp: ensure_bucket_exists_def head_bucket_def Let_def emit_def
        split: option.splits exn.splits)
  have 6: "fst (ensure_bucket_exists E w) = Inr True \<longrightarrow>
      fst (ensure_bucket_exists E (snd (ensure_bucket_exists E w))) = Inr True
      \<and> bucket (snd (ensure_bucket_exists E (snd (ensure_bucket_exists E w))))
          = bucket (snd (ensure_bucket_exists E w))"
    by (auto simp: ensure_bucket_exists_def head_bucket_def create_bucket_def Let_def emit_def
        split: option.splits exn.splits if_splits)
  have 7: "fst (ensure_bucket_exists E (emit (St Write_intro) (emit (St Title) w))) \<noteq> Inr True \<longrightarrow>
      fst (main E style_choice button w)
        = (case fst (ensure_bucket_exists E (emit (St Write_intro) (emit (St Title) w))) of
             Inl e \<Rightarrow> Inl e | Inr ok \<Rightarrow> Inr ())
      \<and> set (calls_since w (snd (main E style_choice button w))) \<subseteq> {Head_bucket, Create_bucket}"
    using main_ensure_not_true [of E w _ _ style_choice button]
    by (metis prod.collapse)
  from 1 2 3 4 5 6 7 show ?thesis by blast
qed

theorem ensure_bucket_exists_outcomes_witness:
  "fst (head_bucket no_faults mail_world) = Inr ()
   \<and> fst (ensure_bucket_exists no_faults mail_world) = Inr True
   \<and> bucket (snd (ensure_bucket_exists no_faults mail_world)) = bucket mail_world
   \<and> fst (head_bucket no_faults no_bucket_world) = Inl (ClientError ''404'')
   \<and> fst (create_bucket no_faults (snd (head_bucket no_faults no_bucket_world))) = Inr ()
   \<and> fst (ensure_bucket_exists no_faults no_bucket_world) = Inr True
   \<and> bucket (snd (ensure_bucket_exists no_faults no_bucket_world)) \<noteq> None
   \<and> fst (head_bucket forbidden mail_world) = Inl (ClientError ''403'')
   \<and> fst (ensure_bucket_exists forbidden mail_world) = Inr False
   \<and> fst (main forbidden Email_Style True mail_world) = Inr ()
   \<and> set (calls_since mail_world (snd (main forbidden Email_Style True mail_world)))
        \<subseteq> {Head_bucket, Create_bucket}
   \<and> fst (main network_down Email_Style True mail_world)
        = Inl (OtherException ''EndpointConnectionError'')
   \<and> set (calls_since mail_world (snd (main network_down Email_Style True mail_world)))
        \<subseteq> {Head_bucket, Create_bucket}
   \<and> fst (head_bucket create_denied no_bucket_world) = Inl (ClientError ''404'')
   \<and> fst (create_bucket create_denied (snd (head_bucket create_denied no_bucket_world)))
        = Inl (ClientError ''AccessDenied'')
   \<and> fst (ensure_bucket_exists create_denied no_bucket_world) = Inr False
   \<and> fst (head_bucket network_down mail_world)
        = Inl (OtherException ''EndpointConnectionError'')
   \<and> fst (ensure_bucket_exists network_down mail_world)
        = Inl (OtherException ''EndpointConnectionError'')
   \<and> fst (ensure_bucket_exists no_faults
             (snd (ensure_bucket_exists no_faults no_bucket_world))) = Inr True
   \<and> bucket (snd (ensure_bucket_exists no_faults
                   (snd (ensure_bucket_exists no_faults no_bucket_world))))
        = bucket (snd (ensure_bucket_exists no_faults no_bucket_world))"
proof -
  have a: "fst (head_bucket no_faults mail_world) = Inr ()"
    by (simp add: head_bucket_def no_faults_def mail_world_def Let_def emit_def)
  have b: "fst (head_bucket no_faults no_bucket_world) = Inl (ClientError ''404'')"
    by (simp add: head_bucket_def no_faults_def no_bucket_world_def Let_def emit_def)
  have c: "fst (create_bucket no_faults (snd (head_bucket no_faults no_bucket_world))) = Inr ()"
    by (simp add: head_bucket_def create_bucket_def no_faults_def no_bucket_world_def Let_def
        emit_def)
  have d: "fst (head_bucket forbidden mail_world) = Inl (ClientError ''403'')"
    by (simp add: head_bucket_def forbidden_def no_faults_def mail_world_def Let_def emit_def)
  have e: "fst (ensure_bucket_exists forbidden
                  (emit (St Write_intro) (emit (St Title) mail_world))) = Inr False"
    by (simp add: ensure_bucket_exists_def head_bucket_def forbidden_def no_faults_def
        mail_world_def Let_def emit_def)
  have f: "fst (ensure_bucket_exists network_down
                  (emit (St Write_intro) (emit (St Title) mail_world)))
             = Inl (OtherException ''EndpointConnectionError'')"
    by (simp add: ensure_bucket_exists_def head_bucket_def network_down_def no_faults_def
        mail_world_def Let_def emit_def)
  note t1 = ensure_bucket_exists_outcomes [of no_faults mail_world Email_Style True]
  note t2 = ensure_bucket_exists_outcomes [of no_faults no_bucket_world Email_Style True]
  note t3 = ensure_bucket_exists_outcomes [of forbidden mail_world Email_Style True]
  note t4 = ensure_bucket_exists_outcomes [of network_down mail_world Email_Style True]
  from t1 a have 1: "fst (ensure_bucket_exists no_faults mail_world) = Inr True
      \<and> bucket (snd (ensure_bucket_exists no_faults mail_world)) = bucket mail_world"
    by blast
  from t2 b c have 2: "fst (ensure_bucket_exists no_faults no_bucket_world) = Inr True
      \<and> bucket (snd (ensure_bucket_exists no_faults no_bucket_world)) \<noteq> None"
    by blast
  from t3 d have 3: "fst (ensure_bucket_exists forbidden mail_world) = Inr False"
    by simp
  from t3 e have 4: "fst (main forbidden Email_Style True mail_world) = Inr ()
      \<and> set (calls_since mail_world (snd (main forbidden Email_Style True mail_world)))
          \<subseteq> {Head_bucket, Create_bucket}"
    by simp
  from t4 f have 5: "fst (main network_down Email_Style True mail_world)
          = Inl (OtherException ''EndpointConnectionError'')
      \<and> set (calls_since mail_world (snd (main network_down Email_Style True mail_world)))
          \<subseteq> {Head_bucket, Create_bucket}"
    by simp
  have g: "fst (head_bucket create_denied no_bucket_world) = Inl (ClientError ''404'')"
    by (simp add: head_bucket_def create_denied_def no_faults_def no_bucket_world_def Let_def
        emit_def)
  have h: "fst (create_bucket create_denied (snd (head_bucket create_denied no_bucket_world)))
        = Inl (ClientError ''AccessDenied'')"
    by (simp add: head_bucket_def create_bucket_def create_denied_def no_faults_def
        no_bucket_world_def Let_def emit_def)
  have i: "fst (head_bucket network_down mail_world)
        = Inl (OtherException ''EndpointConnectionError'')"
    by (simp add: head_bucket_def network_down_def no_faults_def Let_def)
  note t5 = ensure_bucket_exists_outcomes [of create_denied no_bucket_world Email_Style True]
  from t5 g h have 6: "fst (ensure_bucket_exists create_denied no_bucket_world) = Inr False"
    by blast
  from t4 i have 7: "fst (ensure_bucket_exists network_down mail_world)
        = Inl (OtherException ''EndpointConnectionError'')"
    by blast
  from t2 2 have 8: "fst (ensure_bucket_exists no_faults
             (snd (ensure_bucket_exists no_faults no_bucket_world))) = Inr True
      \<and> bucket (snd (ensure_bucket_exists no_faults
                   (snd (ensure_bucket_exists no_faults no_bucket_world))))
        = bucket (snd (ensure_bucket_exists no_faults no_bucket_world))"
    by blast
  from a b c d g h i 1 2 3 4 5 6 7 8 show ?thesis by simp
qed

section \<open>list_pdfs_in_s3\<close>

lemma lower_char_dot: "lower_char c = CHR ''.'' \<longleftrightarrow> c = CHR ''.''"
  by (simp add: lower_char_def split: if_splits)

lemma lower_char_p: "lower_char c = CHR ''p'' \<longleftrightarrow> c = CHR ''p'' \<or> c = CHR ''P''"
  by (simp add: lower_char_def split: if_splits)

lemma lower_char_d: "lower_char c = CHR ''d'' \<longleftrightarrow> c = CHR ''d'' \<or> c = CHR ''D''"
  by (simp add: lower_char_def split: if_splits)

lemma lower_char_f: "lower_char c = CHR ''f'' \<longleftrightarrow> c = CHR ''f'' \<or> c = CHR ''F''"
  by (simp add: lower_char_def split: if_splits)

lemma lower_is_pdf: "lower ext = ''.pdf'' \<longleftrightarrow> ext \<in> set pdf_suffixes"
  by (auto simp: lower_def pdf_suffixes_def map_eq_Cons_conv
      lower_char_dot lower_char_p lower_char_d lower_char_f)

lemma suffix_map: "suffix s (map f k) \<longleftrightarrow> (\<exists>ext. suffix ext k \<and> map f ext = s)"
  by (auto simp: suffix_def map_eq_append_conv)

lemma endswith_lower_pdf:
  "endswith (lower k) ''.pdf'' \<longleftrightarrow> (\<exists>ext \<in> set pdf_suffixes. suffix ext k)"
proof -
  have "endswith (lower k) ''.pdf'' \<longleftrightarrow> (\<exists>ext. suffix ext k \<and> lower ext = ''.pdf'')"
    unfolding endswith_def lower_def by (rule suffix_map)
  then show ?thesis
    using lower_is_pdf by blast
qed

text \<open>
  C6. When the listing call answers, \<open>list_pdfs_in_s3 prefix\<close> returns exactly the
  keys of the bucket that start with the prefix and end with \<^verbatim>\<open>.pdf\<close> in any
  mix of upper and lower case, in the order of the listing, and reports no error:
  the only event it adds is the listing call. That includes the empty result.
\<close>

theorem list_pdfs_in_s3_exact:
  assumes "list_fault E = None" and "bucket w = Some objs"
  shows "fst (list_pdfs_in_s3 E pre w)
           = filter (\<lambda>k. prefix pre k \<and> (\<exists>ext \<in> set pdf_suffixes. suffix ext k)) (map fst objs)
       \<and> log (snd (list_pdfs_in_s3 E pre w)) = log w @ [Call (List_objects_v2 pre)]"
  using assms
  by (simp add: list_pdfs_in_s3_def list_objects_v2_def Let_def emit_def endswith_lower_pdf
      conj_commute)

theorem list_pdfs_in_s3_exact_witness:
  "list_fault no_faults = None \<and> bucket mail_world = Some mail_bucket
   \<and> fst (list_pdfs_in_s3 no_faults ''mail/'' mail_world) = [''mail/a.PDF'', ''mail/b.pdf'']
   \<and> fst (list_pdfs_in_s3 no_faults ''report/'' mail_world) = []
   \<and> log (snd (list_pdfs_in_s3 no_faults ''report/'' mail_world))
        = log mail_world @ [Call (List_objects_v2 ''report/'')]"
proof -
  have a: "list_fault no_faults = None"
    by (simp add: no_faults_def)
  have b: "bucket mail_world = Some mail_bucket"
    by (simp add: mail_world_def)
  have c: "filter (\<lambda>k. prefix ''mail/'' k \<and> (\<exists>ext \<in> set pdf_suffixes. suffix ext k))
             (map fst mail_bucket) = [''mail/a.PDF'', ''mail/b.pdf'']"
    by (simp add: mail_bucket_def pdf_suffixes_def suffix_to_prefix)
  have d: "filter (\<lambda>k. prefix ''report/'' k \<and> (\<exists>ext \<in> set pdf_suffixes. suffix ext k))
             (map fst mail_bucket) = []"
    by (simp add: mail_bucket_def)
  from list_pdfs_in_s3_exact [OF a b, of "''mail/''"] list_pdfs_in_s3_exact [OF a b, of "''report/''"]
    a b c d
  show ?thesis by simp
qed

section \<open>A run that finds no PDF\<close>

text \<open>
  C7. Whenever the listing of the style's prefix yields no PDF key, the run stops
  right after the listing with the warning: \<open>main\<close> returns, the last event is the
  warning, the only calls it has made are the existence check, possibly the creation
  of the bucket, and the listing (no download, no loading, no chunking, no embedding,
  no saving, no upload), and the objects of the bucket, the scratch directory and the
  count of index builds are as before the run. This holds whether or not the button
  is pressed.
\<close>

theorem no_pdfs_stops_run:
  assumes ens: "fst (ensure_bucket_exists E (emit (St Write_intro) (emit (St Title) w))) = Inr True"
    and lst: "fst (list_pdfs_in_s3 E (prefix_map style_choice)
                (emit (St (Write_selected style_choice (prefix_map style_choice)))
                   (snd (ensure_bucket_exists E (emit (St Write_intro) (emit (St Title) w)))))) = []"
  shows "fst (main E style_choice button w) = Inr ()
       \<and> last (log (snd (main E style_choice button w)))
           = St (Warning_no_pdfs (prefix_map style_choice))
       \<and> set (calls_since w (snd (main E style_choice button w)))
           \<subseteq> {Head_bucket, Create_bucket, List_objects_v2 (prefix_map style_choice)}
       \<and> published (snd (main E style_choice button w)) = published w
       \<and> tmp (snd (main E style_choice button w)) = tmp w
       \<and> from_documents_calls (snd (main E style_choice button w)) = from_documents_calls w"
proof -
  obtain w1 where e1: "ensure_bucket_exists E (emit (St Write_intro) (emit (St Title) w)) = (Inr True, w1)"
    using ens by (metis prod.collapse)
  obtain w3 where l3: "list_pdfs_in_s3 E (prefix_map style_choice)
                (emit (St (Write_selected style_choice (prefix_map style_choice))) w1) = ([], w3)"
    using lst e1 by (metis prod.collapse snd_conv)
  have m: "main E style_choice button w
           = (Inr (), emit (St (Warning_no_pdfs (prefix_map style_choice))) w3)"
    by (rule main_no_pdfs [OF e1 l3])
  from ensure_bucket_exists_frame [OF e1]
  obtain es where f1: "tmp w1 = tmp w" "from_documents_calls w1 = from_documents_calls w"
      "published w1 = published w" "log w1 = log w @ [St Title, St Write_intro] @ es"
      "set (calls es) \<subseteq> {Head_bucket, Create_bucket}"
    by (auto simp: log_emit tmp_emit count_emit published_emit)
  from list_pdfs_in_s3_frame [OF l3]
  obtain es' where f3: "tmp w3 = tmp w1" "from_documents_calls w3 = from_documents_calls w1"
      "bucket w3 = bucket w1"
      "log w3 = log w1 @ [St (Write_selected style_choice (prefix_map style_choice))] @ es'"
      "calls es' = [List_objects_v2 (prefix_map style_choice)]"
    by (auto simp: log_emit tmp_emit count_emit bucket_emit)
  have p: "published w3 = published w"
    using f1(3) f3(3) by (simp add: published_def fun_eq_iff)
  have lg: "log (emit (St (Warning_no_pdfs (prefix_map style_choice))) w3)
      = log w @ ([St Title, St Write_intro] @ es
          @ [St (Write_selected style_choice (prefix_map style_choice))] @ es'
          @ [St (Warning_no_pdfs (prefix_map style_choice))])"
    using f1(4) f3(4) by (simp add: log_emit)
  have cs: "set (calls_since w (emit (St (Warning_no_pdfs (prefix_map style_choice))) w3))
      \<subseteq> {Head_bucket, Create_bucket, List_objects_v2 (prefix_map style_choice)}"
    unfolding calls_since_append [OF lg] using f1(5) f3(5)
    by (auto simp: calls_append)
  show ?thesis
    using m p cs f1(1,2) f3(1,2)
    by (simp add: log_emit tmp_emit count_emit published_emit)
qed

theorem no_pdfs_stops_run_witness:
  "fst (ensure_bucket_exists no_faults (emit (St Write_intro) (emit (St Title) mail_world)))
     = Inr True
   \<and> fst (list_pdfs_in_s3 no_faults (prefix_map Report_Style)
            (emit (St (Write_selected Report_Style (prefix_map Report_Style)))
               (snd (ensure_bucket_exists no_faults
                       (emit (St Write_intro) (emit (St Title) mail_world)))))) = []
   \<and> fst (main no_faults Report_Style True mail_world) = Inr ()
   \<and> last (log (snd (main no_faults Report_Style True mail_world)))
       = St (Warning_no_pdfs ''report/'')
   \<and> set (calls_since mail_world (snd (main no_faults Report_Style True mail_world)))
       \<subseteq> {Head_bucket, Create_bucket, List_objects_v2 ''report/''}
   \<and> published (snd (main no_faults Report_Style True mail_world)) = published mail_world"
proof -
  have a: "fst (ensure_bucket_exists no_faults (emit (St Write_intro) (emit (St Title) mail_world)))
     = Inr True"
    by (simp add: ensure_bucket_exists_def head_bucket_def no_faults_def mail_world_def Let_def
        emit_def)
  have b: "fst (list_pdfs_in_s3 no_faults (prefix_map Report_Style)
            (emit (St (Write_selected Report_Style (prefix_map Report_Style)))
               (snd (ensure_bucket_exists no_faults
                       (emit (St Write_intro) (emit (St Title) mail_world)))))) = []"
    by (simp add: list_pdfs_in_s3_def list_objects_v2_def ensure_bucket_exists_def
        head_bucket_def no_faults_def mail_world_def mail_bucket_def Let_def emit_def)
  from no_pdfs_stops_run [OF a b, of True] a b show ?thesis by simp
qed

section \<open>A listing that fails\<close>

text \<open>
  C10. Whenever the listing call of the object store fails, \<open>list_pdfs_in_s3\<close>
  returns the empty list, the value it returns for a prefix with no document (here:
  for the same call on a service that answers and an empty bucket); and the run,
  once the bucket is ensured, then ends as a run without documents does: \<open>main\<close>
  returns normally and its last event is the warning that no PDF was found.
\<close>

theorem listing_failure_reads_as_no_documents:
  "(fst (list_objects_v2 E pre w) = Inl e \<longrightarrow>
      fst (list_pdfs_in_s3 E pre w) = []
      \<and> fst (list_pdfs_in_s3 E pre w)
          = fst (list_pdfs_in_s3 (E\<lparr>list_fault := None\<rparr>) pre (w\<lparr>bucket := Some []\<rparr>)))
   \<and> (fst (ensure_bucket_exists E (emit (St Write_intro) (emit (St Title) w))) = Inr True
       \<and> fst (list_objects_v2 E (prefix_map style_choice)
                (emit (St (Write_selected style_choice (prefix_map style_choice)))
                   (snd (ensure_bucket_exists E (emit (St Write_intro) (emit (St Title) w))))))
           = Inl e \<longrightarrow>
      fst (main E style_choice button w) = Inr ()
      \<and> last (log (snd (main E style_choice button w)))
           = St (Warning_no_pdfs (prefix_map style_choice)))"
proof -
  have 1: "fst (list_pdfs_in_s3 E pre w) = []
      \<and> fst (list_pdfs_in_s3 E pre w)
          = fst (list_pdfs_in_s3 (E\<lparr>list_fault := None\<rparr>) pre (w\<lparr>bucket := Some []\<rparr>))"
    if "fst (list_objects_v2 E pre w) = Inl e" for pre w
    using that
    by (auto simp: list_pdfs_in_s3_def list_objects_v2_def Let_def emit_def split: option.splits)
  have 2: "fst (main E style_choice button w) = Inr ()
      \<and> last (log (snd (main E style_choice button w)))
           = St (Warning_no_pdfs (prefix_map style_choice))"
    if ens: "fst (ensure_bucket_exists E (emit (St Write_intro) (emit (St Title) w))) = Inr True"
      and lst: "fst (list_objects_v2 E (prefix_map style_choice)
                (emit (St (Write_selected style_choice (prefix_map style_choice)))
                   (snd (ensure_bucket_exists E (emit (St Write_intro) (emit (St Title) w))))))
           = Inl e"
  proof -
    obtain w1 where e1: "ensure_bucket_exists E (emit (St Write_intro) (emit (St Title) w)) = (Inr True, w1)"
      using ens by (metis prod.collapse)
    from lst e1 have "fst (list_pdfs_in_s3 E (prefix_map style_choice)
                (emit (St (Write_selected style_choice (prefix_map style_choice))) w1)) = []"
      using 1 by simp
    then obtain w3 where l3: "list_pdfs_in_s3 E (prefix_map style_choice)
                (emit (St (Write_selected style_choice (prefix_map style_choice))) w1) = ([], w3)"
      by (metis prod.collapse)
    show ?thesis
      using main_no_pdfs [OF e1 l3] by (simp add: log_emit)
  qed
  from 1 2 show ?thesis by blast
qed

theorem listing_failure_reads_as_no_documents_witness:
  "fst (list_objects_v2 listing_down ''mail/'' mail_world)
     = Inl (OtherException ''ConnectTimeoutError'')
   \<and> fst (list_pdfs_in_s3 listing_down ''mail/'' mail_world) = []
   \<and> fst (list_pdfs_in_s3 no_faults ''mail/'' mail_world) \<noteq> []
   \<and> fst (ensure_bucket_exists listing_down (emit (St Write_intro) (emit (St Title) mail_world)))
       = Inr True
   \<and> fst (main listing_down Email_Style True mail_world) = Inr ()
   \<and> last (log (snd (main listing_down Email_Style True mail_world)))
       = St (Warning_no_pdfs ''mail/'')"
proof -
  have a: "fst (list_objects_v2 listing_down ''mail/'' mail_world)
     = Inl (OtherException ''ConnectTimeoutError'')"
    by (simp add: list_objects_v2_def listing_down_def no_faults_def Let_def)
  have b: "fst (ensure_bucket_exists listing_down
                  (emit (St Write_intro) (emit (St Title) mail_world))) = Inr True"
    by (simp add: ensure_bucket_exists_def head_bucket_def listing_down_def no_faults_def
        mail_world_def Let_def emit_def)
  have c: "fst (list_objects_v2 listing_down (prefix_map Email_Style)
                (emit (St (Write_selected Email_Style (prefix_map Email_Style)))
                   (snd (ensure_bucket_exists listing_down
                           (emit (St Write_intro) (emit (St Title) mail_world))))))
           = Inl (OtherException ''ConnectTimeoutError'')"
    by (simp add: list_objects_v2_def listing_down_def no_faults_def Let_def)
  have d: "fst (list_pdfs_in_s3 no_faults ''mail/'' mail_world) \<noteq> []"
    by (simp add: list_pdfs_in_s3_def list_objects_v2_def no_faults_def mail_world_def
        mail_bucket_def Let_def emit_def endswith_def lower_def lower_char_def suffix_to_prefix)
  note t1 = listing_failure_reads_as_no_documents
    [of listing_down "''mail/''" mail_world "OtherException ''ConnectTimeoutError''"
        Email_Style True]
  from t1 a have 1: "fst (list_pdfs_in_s3 listing_down ''mail/'' mail_world) = []"
    by blast
  from t1 b c have 2: "fst (main listing_down Email_Style True mail_world) = Inr ()
      \<and> last (log (snd (main listing_down Email_Style True mail_world)))
           = St (Warning_no_pdfs (prefix_map Email_Style))"
    by blast
  from a b d 1 2 show ?thesis by simp
qed

section \<open>Loading the documents\<close>

lemma downloads_append: "downloads (xs @ ys) = downloads xs @ downloads ys"
  by (induction xs rule: downloads.induct) simp_all

lemma download_file_frame:
  assumes "download_file E k p w = (r, w')"
  shows "bucket w' = bucket w \<and> from_documents_calls w' = from_documents_calls w
       \<and> log w' = log w @ [Call (Download_file k p)]"
  using assms
  by (auto simp: download_file_def Let_def emit_def split: option.splits)

lemma load_and_split_frame: "snd (load_and_split p w) = emit (Call (Load_and_split p)) w"
  by (simp add: load_and_split_def Let_def split: option.split blob.split)

lemma download_and_process_pdf_frame:
  assumes "download_and_process_pdf E k w = (r, w')"
  shows "bucket w' = bucket w \<and> from_documents_calls w' = from_documents_calls w
       \<and> (\<exists>es. log w' = log w @ es \<and> downloads (calls es) = [k])"
proof -
  let ?p = "''/tmp/'' @ basename k"
  obtain r1 w1 where d: "download_file E k ?p w = (r1, w1)"
    by (cases "download_file E k ?p w")
  note f = download_file_frame [OF d]
  show ?thesis
  proof (cases r1)
    case (Inl e)
    with assms d have "w' = emit (St (Error_processing k e)) w1"
      by (simp add: download_and_process_pdf_def Let_def)
    with f show ?thesis
      by (simp add: bucket_emit count_emit log_emit)
  next
    case (Inr u)
    obtain r2 w2 where l: "load_and_split ?p w1 = (r2, w2)"
      by (cases "load_and_split ?p w1")
    then have w2: "w2 = emit (Call (Load_and_split ?p)) w1"
      using load_and_split_frame [of ?p w1] by simp
    from assms d l Inr have "w' = w2 \<or> (\<exists>e. w' = emit (St (Error_processing k e)) w2)"
      by (cases r2) (auto simp: download_and_process_pdf_def Let_def)
    with f w2 show ?thesis
      by (auto simp: bucket_emit count_emit log_emit)
  qed
qed

lemma download_file_result:
  "download_file E k p w
     = (case download_fault E k of
          Some e \<Rightarrow> (Inl e, emit (Call (Download_file k p)) w)
        | None \<Rightarrow>
            (case published w k of
               None \<Rightarrow> (Inl (ClientError ''404''), emit (Call (Download_file k p)) w)
             | Some b \<Rightarrow>
                 (Inr (), (emit (Call (Download_file k p)) w)
                            \<lparr>tmp := (tmp (emit (Call (Download_file k p)) w))(p \<mapsto> b)\<rparr>)))"
  by (simp add: download_file_def published_def Let_def bucket_emit split: option.split)

lemma load_and_split_result:
  assumes "tmp w p = Some b"
  shows "fst (load_and_split p w)
     = (case b of
          Pdf texts \<Rightarrow>
            Inr (map (\<lambda>(i, t). \<lparr>page_content = t, source = p, page_no = i\<rparr>) (enumerate 0 texts))
        | _ \<Rightarrow> Inl (OtherException ''PdfReadError''))"
  using assms by (simp add: load_and_split_def Let_def tmp_emit split: blob.split)

lemma download_and_process_pdf_result:
  "fst (download_and_process_pdf E k w)
     = (case download_fault E k of
          Some e \<Rightarrow> None
        | None \<Rightarrow>
            (case published w k of
               Some (Pdf texts) \<Rightarrow>
                 Some (map (\<lambda>(i, t). \<lparr>page_content = t, source = ''/tmp/'' @ basename k,
                                       page_no = i\<rparr>) (enumerate 0 texts))
             | Some other \<Rightarrow> None
             | None \<Rightarrow> None))"
proof (cases "download_fault E k")
  case (Some e)
  then show ?thesis
    by (simp add: download_and_process_pdf_def download_file_result Let_def)
next
  case None
  show ?thesis
  proof (cases "published w k")
    case n: None
    with None show ?thesis
      by (simp add: download_and_process_pdf_def download_file_result Let_def)
  next
    case (Some b)
    let ?p = "''/tmp/'' @ basename k"
    let ?w1 = "(emit (Call (Download_file k ?p)) w)
                  \<lparr>tmp := (tmp (emit (Call (Download_file k ?p)) w))(?p \<mapsto> b)\<rparr>"
    have d: "download_file E k ?p w = (Inr (), ?w1)"
      using None Some by (simp add: download_file_result)
    have t: "tmp ?w1 ?p = Some b" by simp
    have "fst (download_and_process_pdf E k w)
        = (case fst (load_and_split ?p ?w1) of Inl e \<Rightarrow> None | Inr pages \<Rightarrow> Some pages)"
      unfolding download_and_process_pdf_def Let_def d
      by (cases "load_and_split ?p ?w1") (simp split: sum.split)
    also have "\<dots> = (case b of
          Pdf texts \<Rightarrow>
            Some (map (\<lambda>(i, t). \<lparr>page_content = t, source = ?p, page_no = i\<rparr>) (enumerate 0 texts))
        | _ \<Rightarrow> None)"
      unfolding load_and_split_result [OF t] by (simp split: blob.split)
    finally show ?thesis
      using None Some by (simp split: blob.split)
  qed
qed

lemma download_and_process_pdf_bucket:
  assumes "bucket v = bucket w"
  shows "fst (download_and_process_pdf E k v) = fst (download_and_process_pdf E k w)"
proof -
  have "published v = published w"
    using assms by (simp add: published_def fun_eq_iff)
  then show ?thesis
    by (simp only: download_and_process_pdf_result)
qed

lemma readable_pages_eq:
  "readable_pages E w k
     = (case fst (download_and_process_pdf E k w) of None \<Rightarrow> [] | Some pages \<Rightarrow> pages)"
proof -
  let ?p = "''/tmp/'' @ basename k"
  obtain r1 w1 where d: "download_file E k ?p w = (r1, w1)"
    by (cases "download_file E k ?p w")
  show ?thesis
  proof (cases r1)
    case (Inl e)
    with d show ?thesis
      by (simp add: readable_pages_def download_and_process_pdf_def Let_def)
  next
    case (Inr u)
    obtain r2 w2 where l: "load_and_split ?p w1 = (r2, w2)"
      by (cases "load_and_split ?p w1")
    with d Inr show ?thesis
      by (cases r2) (simp_all add: readable_pages_def download_and_process_pdf_def Let_def)
  qed
qed

text \<open>
  How \<open>download_and_process_pdf\<close> ends, by the outcome of the download and of the
  extraction.
\<close>

lemma download_and_process_pdf_download_fails:
  assumes "fst (download_file E k (''/tmp/'' @ basename k) w) = Inl e"
  shows "fst (download_and_process_pdf E k w) = None
       \<and> last (log (snd (download_and_process_pdf E k w))) = St (Error_processing k e)"
proof -
  obtain w1 where "download_file E k (''/tmp/'' @ basename k) w = (Inl e, w1)"
    using assms by (metis prod.collapse)
  then show ?thesis
    by (simp add: download_and_process_pdf_def Let_def log_emit)
qed

lemma download_and_process_pdf_load_fails:
  assumes "fst (download_file E k (''/tmp/'' @ basename k) w) = Inr ()"
    and "fst (load_and_split (''/tmp/'' @ basename k)
                (snd (download_file E k (''/tmp/'' @ basename k) w))) = Inl e"
  shows "fst (download_and_process_pdf E k w) = None
       \<and> last (log (snd (download_and_process_pdf E k w))) = St (Error_processing k e)"
proof -
  obtain w1 where d: "download_file E k (''/tmp/'' @ basename k) w = (Inr (), w1)"
    using assms(1) by (metis prod.collapse)
  with assms(2) obtain w2 where "load_and_split (''/tmp/'' @ basename k) w1 = (Inl e, w2)"
    by (metis prod.collapse snd_conv)
  with d show ?thesis
    by (simp add: download_and_process_pdf_def Let_def log_emit)
qed

lemma download_and_process_pdf_loads:
  assumes "fst (download_file E k (''/tmp/'' @ basename k) w) = Inr ()"
    and "fst (load_and_split (''/tmp/'' @ basename k)
                (snd (download_file E k (''/tmp/'' @ basename k) w))) = Inr pages"
  shows "fst (download_and_process_pdf E k w) = Some pages
       \<and> readable_pages E w k = pages"
proof -
  obtain w1 where d: "download_file E k (''/tmp/'' @ basename k) w = (Inr (), w1)"
    using assms(1) by (metis prod.collapse)
  with assms(2) obtain w2 where "load_and_split (''/tmp/'' @ basename k) w1 = (Inr pages, w2)"
    by (metis prod.collapse snd_conv)
  with d show ?thesis
    by (simp add: download_and_process_pdf_def readable_pages_def Let_def)
qed

lemma readable_pages_bucket:
  assumes "bucket v = bucket w"
  shows "readable_pages E v = readable_pages E w"
proof
  fix k
  show "readable_pages E v k = readable_pages E w k"
    unfolding readable_pages_eq download_and_process_pdf_bucket [OF assms, of E k] ..
qed

lemma download_and_process_pdf_error:
  assumes "fst (download_and_process_pdf E k w) = None"
  shows "\<exists>e. last (log (snd (download_and_process_pdf E k w))) = St (Error_processing k e)"
proof -
  let ?p = "''/tmp/'' @ basename k"
  obtain r1 w1 where d: "download_file E k ?p w = (r1, w1)"
    by (cases "download_file E k ?p w")
  show ?thesis
  proof (cases r1)
    case (Inl e)
    with d show ?thesis
      by (simp add: download_and_process_pdf_def Let_def log_emit)
  next
    case (Inr u)
    obtain r2 w2 where l: "load_and_split ?p w1 = (r2, w2)"
      by (cases "load_and_split ?p w1")
    with assms d Inr show ?thesis
      by (cases r2) (simp_all add: download_and_process_pdf_def Let_def log_emit)
  qed
qed

lemma process_pdfs_pages:
  "fst (process_pdfs E pdf_files all_pages w)
     = all_pages @ concat (map (readable_pages E w) pdf_files)
   \<and> bucket (snd (process_pdfs E pdf_files all_pages w)) = bucket w
   \<and> from_documents_calls (snd (process_pdfs E pdf_files all_pages w)) = from_documents_calls w
   \<and> (\<exists>es. log (snd (process_pdfs E pdf_files all_pages w)) = log w @ es
          \<and> downloads (calls es) = pdf_files)"
proof (induction pdf_files arbitrary: all_pages w)
  case Nil
  show ?case by simp
next
  case (Cons k ks)
  let ?w0 = "emit (St (Write_processing k)) w"
  obtain r w1 where d: "download_and_process_pdf E k ?w0 = (r, w1)"
    by (cases "download_and_process_pdf E k ?w0")
  from download_and_process_pdf_frame [OF d]
  obtain es where f: "bucket w1 = bucket w" "from_documents_calls w1 = from_documents_calls w"
      "log w1 = log w @ [St (Write_processing k)] @ es" "downloads (calls es) = [k]"
    by (auto simp: bucket_emit count_emit log_emit)
  have r: "readable_pages E w k = (case r of None \<Rightarrow> [] | Some pages \<Rightarrow> pages)"
    using d download_and_process_pdf_bucket [of ?w0 w E k]
    by (simp add: readable_pages_eq bucket_emit)
  show ?case
  proof (cases "r = None \<or> r = Some []")
    case True
    then have step: "process_pdfs E (k # ks) all_pages w = process_pdfs E ks all_pages w1"
      using d by auto
    from Cons.IH [of all_pages w1]
    obtain es' where ih: "fst (process_pdfs E ks all_pages w1)
          = all_pages @ concat (map (readable_pages E w1) ks)"
        "bucket (snd (process_pdfs E ks all_pages w1)) = bucket w1"
        "from_documents_calls (snd (process_pdfs E ks all_pages w1)) = from_documents_calls w1"
        "log (snd (process_pdfs E ks all_pages w1)) = log w1 @ es'" "downloads (calls es') = ks"
      by blast
    have "readable_pages E w k = []" using True r by auto
    moreover have "readable_pages E w1 = readable_pages E w"
      using f(1) by (rule readable_pages_bucket)
    moreover have "downloads (calls ([St (Write_processing k)] @ es @ es')) = k # ks"
      using f(4) ih(5) by (simp add: calls_append downloads_append)
    ultimately have pages_eq: "fst (process_pdfs E ks all_pages w1)
          = all_pages @ concat (map (readable_pages E w) (k # ks))"
      and logs: "\<exists>es''. log (snd (process_pdfs E ks all_pages w1)) = log w @ es''
          \<and> downloads (calls es'') = k # ks"
      using ih(1,4) f(3) by simp_all
    show ?thesis
      unfolding step using pages_eq logs ih(2,3) f(1,2) by simp
  next
    case False
    then obtain pages where p: "r = Some pages" "pages \<noteq> []" by auto
    let ?w2 = "emit (St (Write_added (length pages) k)) w1"
    have step: "process_pdfs E (k # ks) all_pages w = process_pdfs E ks (all_pages @ pages) ?w2"
      using d p by simp
    from Cons.IH [of "all_pages @ pages" ?w2]
    obtain es' where ih: "fst (process_pdfs E ks (all_pages @ pages) ?w2)
          = (all_pages @ pages) @ concat (map (readable_pages E ?w2) ks)"
        "bucket (snd (process_pdfs E ks (all_pages @ pages) ?w2)) = bucket ?w2"
        "from_documents_calls (snd (process_pdfs E ks (all_pages @ pages) ?w2))
           = from_documents_calls ?w2"
        "log (snd (process_pdfs E ks (all_pages @ pages) ?w2)) = log ?w2 @ es'"
        "downloads (calls es') = ks"
      by blast
    have lp: "readable_pages E w k = pages" using p r by simp
    have same: "readable_pages E ?w2 = readable_pages E w"
      using f(1) by (intro readable_pages_bucket) (simp add: bucket_emit)
    have dl: "downloads (calls ([St (Write_processing k)] @ es
                 @ [St (Write_added (length pages) k)] @ es')) = k # ks"
      using f(4) ih(5) by (simp add: calls_append downloads_append)
    have lg: "log (snd (process_pdfs E ks (all_pages @ pages) ?w2))
        = log w @ ([St (Write_processing k)] @ es @ [St (Write_added (length pages) k)] @ es')"
      using ih(4) f(3) by (simp add: log_emit)
    have pages_eq: "fst (process_pdfs E ks (all_pages @ pages) ?w2)
          = all_pages @ concat (map (readable_pages E w) (k # ks))"
      using ih(1) lp same by simp
    have logs: "\<exists>es''. log (snd (process_pdfs E ks (all_pages @ pages) ?w2)) = log w @ es''
          \<and> downloads (calls es'') = k # ks"
      using lg dl by blast
    show ?thesis
      unfolding step using pages_eq logs ih(2,3) f(1,2) by (simp add: bucket_emit count_emit)
  qed
qed

text \<open>
  C5. A document whose download or extraction fails is confined to itself: when
  the download raises, or the download succeeds and the extraction raises,
  \<open>download_and_process_pdf\<close> reports that error for the key and returns
  \<^verbatim>\<open>None\<close>; when both succeed it returns the pages. The loop goes on after a
  failure: it downloads every listed key, in order, and the pages it accumulates are
  those of the documents that loaded, in order, a failed document contributing
  none. The bucket is not changed by loading.
\<close>

theorem process_pdfs_skips_failed_documents:
  "(\<forall>e. fst (download_file E k (''/tmp/'' @ basename k) w) = Inl e \<longrightarrow>
       fst (download_and_process_pdf E k w) = None
       \<and> last (log (snd (download_and_process_pdf E k w))) = St (Error_processing k e)
       \<and> readable_pages E w k = [])
   \<and> (\<forall>e. fst (download_file E k (''/tmp/'' @ basename k) w) = Inr ()
         \<and> fst (load_and_split (''/tmp/'' @ basename k)
                  (snd (download_file E k (''/tmp/'' @ basename k) w))) = Inl e \<longrightarrow>
       fst (download_and_process_pdf E k w) = None
       \<and> last (log (snd (download_and_process_pdf E k w))) = St (Error_processing k e)
       \<and> readable_pages E w k = [])
   \<and> (\<forall>pages. fst (download_file E k (''/tmp/'' @ basename k) w) = Inr ()
         \<and> fst (load_and_split (''/tmp/'' @ basename k)
                  (snd (download_file E k (''/tmp/'' @ basename k) w))) = Inr pages \<longrightarrow>
       fst (download_and_process_pdf E k w) = Some pages
       \<and> readable_pages E w k = pages)
   \<and> fst (process_pdfs E pdf_files all_pages w)
       = all_pages @ concat (map (readable_pages E w) pdf_files)
   \<and> downloads (calls_since w (snd (process_pdfs E pdf_files all_pages w))) = pdf_files
   \<and> bucket (snd (process_pdfs E pdf_files all_pages w)) = bucket w"
proof -
  from process_pdfs_pages [of E pdf_files all_pages w]
  obtain es where a: "fst (process_pdfs E pdf_files all_pages w)
        = all_pages @ concat (map (readable_pages E w) pdf_files)"
      "bucket (snd (process_pdfs E pdf_files all_pages w)) = bucket w"
      "log (snd (process_pdfs E pdf_files all_pages w)) = log w @ es"
      "downloads (calls es) = pdf_files"
    by blast
  have b: "downloads (calls_since w (snd (process_pdfs E pdf_files all_pages w))) = pdf_files"
    using calls_since_append [OF a(3)] a(4) by simp
  have c: "fst (download_and_process_pdf E k w) = None
       \<and> last (log (snd (download_and_process_pdf E k w))) = St (Error_processing k e)
       \<and> readable_pages E w k = []"
    if "fst (download_file E k (''/tmp/'' @ basename k) w) = Inl e" for e
    using download_and_process_pdf_download_fails [OF that]
    by (simp add: readable_pages_eq)
  have d: "fst (download_and_process_pdf E k w) = None
       \<and> last (log (snd (download_and_process_pdf E k w))) = St (Error_processing k e)
       \<and> readable_pages E w k = []"
    if "fst (download_file E k (''/tmp/'' @ basename k) w) = Inr ()"
      and "fst (load_and_split (''/tmp/'' @ basename k)
                  (snd (download_file E k (''/tmp/'' @ basename k) w))) = Inl e" for e
    using download_and_process_pdf_load_fails [OF that]
    by (simp add: readable_pages_eq)
  have e: "fst (download_and_process_pdf E k w) = Some pages
       \<and> readable_pages E w k = pages"
    if "fst (download_file E k (''/tmp/'' @ basename k) w) = Inr ()"
      and "fst (load_and_split (''/tmp/'' @ basename k)
                  (snd (download_file E k (''/tmp/'' @ basename k) w))) = Inr pages" for pages
    using download_and_process_pdf_loads [OF that] .
  from a(1,2) b c d e show ?thesis by blast
qed

text \<open>
  The witness has a key that is gone from the bucket, a file that cannot be read and
  a readable PDF; then the run over two PDFs of which the first cannot be read: the
  loop skips it, loads the second, and \<open>main\<close> publishes an index built from the
  second document alone.
\<close>

theorem process_pdfs_skips_failed_documents_witness:
  "fst (download_file no_faults ''mail/gone.pdf'' (''/tmp/'' @ basename ''mail/gone.pdf'')
          mail_world) = Inl (ClientError ''404'')
   \<and> fst (download_and_process_pdf no_faults ''mail/gone.pdf'' mail_world) = None
   \<and> last (log (snd (download_and_process_pdf no_faults ''mail/gone.pdf'' mail_world)))
       = St (Error_processing ''mail/gone.pdf'' (ClientError ''404''))
   \<and> fst (download_file no_faults ''mail/a.PDF'' (''/tmp/'' @ basename ''mail/a.PDF'')
            mail_world) = Inr ()
   \<and> fst (load_and_split (''/tmp/'' @ basename ''mail/a.PDF'')
            (snd (download_file no_faults ''mail/a.PDF'' (''/tmp/'' @ basename ''mail/a.PDF'')
                    mail_world))) = Inl (OtherException ''PdfReadError'')
   \<and> fst (download_and_process_pdf no_faults ''mail/a.PDF'' mail_world) = None
   \<and> last (log (snd (download_and_process_pdf no_faults ''mail/a.PDF'' mail_world)))
       = St (Error_processing ''mail/a.PDF'' (OtherException ''PdfReadError''))
   \<and> fst (download_file no_faults ''mail/b.pdf'' (''/tmp/'' @ basename ''mail/b.pdf'')
            mail_world) = Inr ()
   \<and> fst (load_and_split (''/tmp/'' @ basename ''mail/b.pdf'')
            (snd (download_file no_faults ''mail/b.pdf'' (''/tmp/'' @ basename ''mail/b.pdf'')
                    mail_world))) = Inr [new_document]
   \<and> fst (download_and_process_pdf no_faults ''mail/b.pdf'' mail_world) = Some [new_document]
   \<and> fst (process_pdfs no_faults [''mail/a.PDF'', ''mail/b.pdf''] [] mail_world) = [new_document]
   \<and> downloads (calls_since mail_world
         (snd (process_pdfs no_faults [''mail/a.PDF'', ''mail/b.pdf''] [] mail_world)))
       = [''mail/a.PDF'', ''mail/b.pdf'']
   \<and> fst (main no_faults Email_Style True mail_world) = Inr ()
   \<and> last (log (snd (main no_faults Email_Style True mail_world)))
       = St (Success_processed Email_Style)
   \<and> published (snd (main no_faults Email_Style True mail_world)) ''my_faiss_mail.pkl''
       = Some (Pkl_file [new_document])"
proof -
  have g: "fst (download_file no_faults ''mail/gone.pdf'' (''/tmp/'' @ basename ''mail/gone.pdf'')
          mail_world) = Inl (ClientError ''404'')"
    by (simp add: download_file_result published_def no_faults_def mail_world_def
        mail_bucket_def)
  have a1: "fst (download_file no_faults ''mail/a.PDF'' (''/tmp/'' @ basename ''mail/a.PDF'')
            mail_world) = Inr ()"
    by (simp add: download_file_result published_def no_faults_def mail_world_def
        mail_bucket_def)
  have a2: "fst (load_and_split (''/tmp/'' @ basename ''mail/a.PDF'')
            (snd (download_file no_faults ''mail/a.PDF'' (''/tmp/'' @ basename ''mail/a.PDF'')
                    mail_world))) = Inl (OtherException ''PdfReadError'')"
    by (simp add: download_file_result load_and_split_def published_def no_faults_def
        mail_world_def mail_bucket_def Let_def emit_def)
  have b1: "fst (download_file no_faults ''mail/b.pdf'' (''/tmp/'' @ basename ''mail/b.pdf'')
            mail_world) = Inr ()"
    by (simp add: download_file_result published_def no_faults_def mail_world_def
        mail_bucket_def)
  have b2: "fst (load_and_split (''/tmp/'' @ basename ''mail/b.pdf'')
            (snd (download_file no_faults ''mail/b.pdf'' (''/tmp/'' @ basename ''mail/b.pdf'')
                    mail_world))) = Inr [new_document]"
    by (simp add: download_file_result load_and_split_def published_def no_faults_def
        mail_world_def mail_bucket_def new_document_def basename_def Let_def emit_def)
  have m: "fst (main no_faults Email_Style True mail_world) = Inr ()
     \<and> last (log (snd (main no_faults Email_Style True mail_world)))
         = St (Success_processed Email_Style)
     \<and> published (snd (main no_faults Email_Style True mail_world)) ''my_faiss_mail.pkl''
         = Some (Pkl_file [new_document])"
    by (simp add: main_def ensure_bucket_exists_def head_bucket_def list_pdfs_in_s3_def
        list_objects_v2_def download_and_process_pdf_def download_file_def load_and_split_def
        basename_def split_text_def split_documents_def windows.simps create_vector_store_def
        from_documents_def save_local_def upload_file_def show_samples_def published_def
        no_faults_def mail_world_def mail_bucket_def new_document_def
        endswith_def lower_def lower_char_def suffix_to_prefix Let_def emit_def
        numeral_2_eq_2)
  note tg = process_pdfs_skips_failed_documents
    [of no_faults "''mail/gone.pdf''" mail_world "[''mail/a.PDF'', ''mail/b.pdf'']" "[]"]
  note ta = process_pdfs_skips_failed_documents
    [of no_faults "''mail/a.PDF''" mail_world "[''mail/a.PDF'', ''mail/b.pdf'']" "[]"]
  note tb = process_pdfs_skips_failed_documents
    [of no_faults "''mail/b.pdf''" mail_world "[''mail/a.PDF'', ''mail/b.pdf'']" "[]"]
  from tg g have 1: "fst (download_and_process_pdf no_faults ''mail/gone.pdf'' mail_world) = None"
    "last (log (snd (download_and_process_pdf no_faults ''mail/gone.pdf'' mail_world)))
       = St (Error_processing ''mail/gone.pdf'' (ClientError ''404''))"
    by blast+
  from ta a1 a2 have 2: "fst (download_and_process_pdf no_faults ''mail/a.PDF'' mail_world) = None"
    "last (log (snd (download_and_process_pdf no_faults ''mail/a.PDF'' mail_world)))
       = St (Error_processing ''mail/a.PDF'' (OtherException ''PdfReadError''))"
    "readable_pages no_faults mail_world ''mail/a.PDF'' = []"
    by blast+
  from tb b1 b2 have 3:
    "fst (download_and_process_pdf no_faults ''mail/b.pdf'' mail_world) = Some [new_document]"
    "readable_pages no_faults mail_world ''mail/b.pdf'' = [new_document]"
    by blast+
  from ta 2(3) 3(2) have 4:
    "fst (process_pdfs no_faults [''mail/a.PDF'', ''mail/b.pdf''] [] mail_world) = [new_document]"
    by simp
  from ta have 5: "downloads (calls_since mail_world
         (snd (process_pdfs no_faults [''mail/a.PDF'', ''mail/b.pdf''] [] mail_world)))
       = [''mail/a.PDF'', ''mail/b.pdf'']"
    by blast
  from g a1 a2 b1 b2 1 2(1,2) 3(1) 4 5 m show ?thesis by blast
qed

section \<open>The embedder\<close>

lemma attempts_Suc: "0 < k \<Longrightarrow> attempts t (Suc k) = Invoke_model t # Backoff # attempts t k"
  by (cases k) simp_all

lemma embed_query_run:
  assumes "embed_query E r t w = (res, w')"
  shows "\<exists>k. 1 \<le> k \<and> k \<le> Suc r
           \<and> provider_requests w' = provider_requests w + k
           \<and> log w' = log w @ map Call (attempts t k)
           \<and> bucket w' = bucket w \<and> tmp w' = tmp w
           \<and> from_documents_calls w' = from_documents_calls w
           \<and> (\<forall>j < k - 1. request_fault E (provider_requests w + j) \<noteq> None)
           \<and> (case res of
                 Inr v \<Rightarrow> v = embedding E t
                            \<and> request_fault E (provider_requests w + (k - 1)) = None
               | Inl e \<Rightarrow> k = Suc r \<and> request_fault E (provider_requests w + r) = Some e)"
  using assms
proof (induction r arbitrary: w)
  case 0
  then show ?case
    by (intro exI [of _ 1]) (auto simp: Let_def emit_def split: option.splits)
next
  case (Suc r)
  let ?n = "provider_requests w"
  let ?w1 = "emit (Call (Invoke_model t)) (w\<lparr>provider_requests := Suc ?n\<rparr>)"
  show ?case
  proof (cases "request_fault E ?n")
    case None
    with Suc.prems show ?thesis
      by (intro exI [of _ 1]) (auto simp: Let_def emit_def)
  next
    case (Some e0)
    let ?w2 = "emit (Call Backoff) ?w1"
    from Suc.prems Some have rec: "embed_query E r t ?w2 = (res, w')"
      by (simp add: Let_def)
    have n2: "provider_requests ?w2 = Suc ?n"
      by (simp add: emit_def)
    from Suc.IH [OF rec] obtain k where k: "1 \<le> k" "k \<le> Suc r"
        "provider_requests w' = Suc ?n + k"
        "log w' = log ?w2 @ map Call (attempts t k)"
        "bucket w' = bucket ?w2" "tmp w' = tmp ?w2"
        "from_documents_calls w' = from_documents_calls ?w2"
        "\<forall>j < k - 1. request_fault E (Suc ?n + j) \<noteq> None"
        "case res of
           Inr v \<Rightarrow> v = embedding E t \<and> request_fault E (Suc ?n + (k - 1)) = None
         | Inl e \<Rightarrow> k = Suc r \<and> request_fault E (Suc ?n + r) = Some e"
      unfolding n2 by blast
    have lg: "log w' = log w @ map Call (attempts t (Suc k))"
      using k(1,4) by (simp add: attempts_Suc emit_def)
    have fl: "\<forall>j < Suc k - 1. request_fault E (?n + j) \<noteq> None"
    proof (intro allI impI)
      fix j assume "j < Suc k - 1"
      then have "j = 0 \<or> (\<exists>j'. j = Suc j' \<and> j' < k - 1)"
        by (cases j) auto
      then show "request_fault E (?n + j) \<noteq> None"
        using Some k(8) by auto
    qed
    have rs: "case res of
           Inr v \<Rightarrow> v = embedding E t \<and> request_fault E (?n + (Suc k - 1)) = None
         | Inl e \<Rightarrow> Suc k = Suc (Suc r) \<and> request_fault E (?n + Suc r) = Some e"
      using k(1,9) by (cases res) (auto simp: Suc_diff_le)
    show ?thesis
      using k(1,2,3,5,6,7) lg fl rs
      by (intro exI [of _ "Suc k"]) (simp add: emit_def)
  qed
qed

lemma embed_query_fails:
  assumes "fst (embed_query E r t w) = Inl e"
  shows "calls_since w (snd (embed_query E r t w)) = attempts t (Suc r)
       \<and> (\<forall>j \<le> r. request_fault E (provider_requests w + j) \<noteq> None)
       \<and> request_fault E (provider_requests w + r) = Some e
       \<and> provider_requests (snd (embed_query E r t w)) = provider_requests w + Suc r"
proof -
  obtain w' where q: "embed_query E r t w = (Inl e, w')"
    using assms by (metis prod.collapse)
  from embed_query_run [OF q] obtain k where k: "k = Suc r"
      "provider_requests w' = provider_requests w + k"
      "log w' = log w @ map Call (attempts t k)"
      "\<forall>j < k - 1. request_fault E (provider_requests w + j) \<noteq> None"
      "request_fault E (provider_requests w + r) = Some e"
    by auto
  have c: "calls (map Call cs) = cs" for cs
    by (induction cs) simp_all
  have "\<forall>j \<le> r. request_fault E (provider_requests w + j) \<noteq> None"
  proof (intro allI impI)
    fix j assume "j \<le> r"
    then have "j < k - 1 \<or> j = r" using k(1) by auto
    then show "request_fault E (provider_requests w + j) \<noteq> None"
      using k(4,5) by auto
  qed
  then show ?thesis
    using q k(1,2,5) calls_since_append [OF k(3)] by (simp add: c)
qed


lemma embed_query_bound:
  "provider_requests (snd (embed_query E r t w)) \<le> provider_requests w + Suc r
   \<and> provider_requests w < provider_requests (snd (embed_query E r t w))"
proof -
  obtain res w' where q: "embed_query E r t w = (res, w')"
    by (cases "embed_query E r t w")
  from embed_query_run [OF q] show ?thesis
    unfolding q by auto
qed

lemma embed_documents_run:
  assumes "embed_documents E ts w = (res, w')"
  shows "bucket w' = bucket w \<and> tmp w' = tmp w
       \<and> from_documents_calls w' = from_documents_calls w
       \<and> provider_requests w \<le> provider_requests w'
       \<and> provider_requests w' \<le> provider_requests w + length ts * Suc (max_retries E)
       \<and> (case res of
             Inr vs \<Rightarrow> vs = map (embedding E) ts
           | Inl e \<Rightarrow> \<exists>i \<ge> provider_requests w. i + max_retries E < provider_requests w'
                        \<and> (\<forall>j \<le> max_retries E. request_fault E (i + j) \<noteq> None)
                        \<and> request_fault E (i + max_retries E) = Some e)"
  using assms
proof (induction ts arbitrary: w res w')
  case Nil
  then show ?case by auto
next
  case (Cons t ts)
  let ?r = "max_retries E"
  obtain r1 w1 where q: "embed_query E ?r t w = (r1, w1)"
    by (cases "embed_query E ?r t w")
  from embed_query_run [OF q] have f1: "bucket w1 = bucket w" "tmp w1 = tmp w"
      "from_documents_calls w1 = from_documents_calls w"
    by auto
  from embed_query_bound [of E ?r t w] q
  have b1: "provider_requests w1 \<le> provider_requests w + Suc ?r"
      "provider_requests w < provider_requests w1"
    by auto
  show ?case
  proof (cases r1)
    case (Inl e)
    with Cons.prems q have r: "res = Inl e" "w' = w1" by auto
    from embed_query_fails [of E ?r t w e] q Inl
    have "\<forall>j \<le> ?r. request_fault E (provider_requests w + j) \<noteq> None"
        "request_fault E (provider_requests w + ?r) = Some e"
        "provider_requests w1 = provider_requests w + Suc ?r"
      by auto
    then have "\<exists>i \<ge> provider_requests w. i + ?r < provider_requests w1
                        \<and> (\<forall>j \<le> ?r. request_fault E (i + j) \<noteq> None)
                        \<and> request_fault E (i + ?r) = Some e"
      by (intro exI [of _ "provider_requests w"]) simp
    with r f1 b1 show ?thesis by simp
  next
    case (Inr v)
    from embed_query_run [OF q] Inr have v: "v = embedding E t" by auto
    obtain r2 w2 where d: "embed_documents E ts w1 = (r2, w2)"
      by (cases "embed_documents E ts w1")
    note ih = Cons.IH [OF d]
    from Cons.prems q Inr d have r: "w' = w2"
        "res = (case r2 of Inl e \<Rightarrow> Inl e | Inr vs \<Rightarrow> Inr (v # vs))"
      by (auto split: sum.splits)
    from ih have fr: "bucket w2 = bucket w1" "tmp w2 = tmp w1"
        "from_documents_calls w2 = from_documents_calls w1"
        "provider_requests w1 \<le> provider_requests w2"
        "provider_requests w2 \<le> provider_requests w1 + length ts * Suc ?r"
      by simp_all
    have bd: "provider_requests w2 \<le> provider_requests w + length (t # ts) * Suc ?r"
      using fr(5) b1 by simp
    show ?thesis
    proof (cases r2)
      case e: (Inl e)
      with ih have "\<exists>i \<ge> provider_requests w1. i + ?r < provider_requests w2
                        \<and> (\<forall>j \<le> ?r. request_fault E (i + j) \<noteq> None)
                        \<and> request_fault E (i + ?r) = Some e"
        by simp
      then obtain i where i: "provider_requests w1 \<le> i" "i + ?r < provider_requests w2"
          "\<forall>j \<le> ?r. request_fault E (i + j) \<noteq> None" "request_fault E (i + ?r) = Some e"
        by blast
      have "\<exists>i \<ge> provider_requests w. i + ?r < provider_requests w2
                        \<and> (\<forall>j \<le> ?r. request_fault E (i + j) \<noteq> None)
                        \<and> request_fault E (i + ?r) = Some e"
        using i b1(2) by (intro exI [of _ i]) simp
      with r e fr f1 b1 bd show ?thesis by simp
    next
      case vs: (Inr vs)
      with ih have "vs = map (embedding E) ts" by simp
      with r vs v fr f1 b1 bd show ?thesis by simp
    qed
  qed
qed

lemma from_documents_run:
  assumes "from_documents E documents w = (res, w')"
  shows "bucket w' = bucket w \<and> tmp w' = tmp w
       \<and> provider_requests w \<le> provider_requests w'
       \<and> provider_requests w' \<le> provider_requests w + length documents * Suc (max_retries E)
       \<and> (case res of
             Inr ix \<Rightarrow> vectors ix = map (\<lambda>d. embedding E (page_content d)) documents
                        \<and> docstore ix = documents
           | Inl e \<Rightarrow> \<exists>i \<ge> provider_requests w. i + max_retries E < provider_requests w'
                        \<and> (\<forall>j \<le> max_retries E. request_fault E (i + j) \<noteq> None)
                        \<and> request_fault E (i + max_retries E) = Some e)"
proof -
  let ?w1 = "emit (Call (From_documents (length documents)))
               (w\<lparr>from_documents_calls := Suc (from_documents_calls w)\<rparr>)"
  obtain r2 w2 where d: "embed_documents E (map page_content documents) ?w1 = (r2, w2)"
    by (cases "embed_documents E (map page_content documents) ?w1")
  have w1: "bucket ?w1 = bucket w" "tmp ?w1 = tmp w" "provider_requests ?w1 = provider_requests w"
    by (simp_all add: emit_def)
  note run = embed_documents_run [OF d, unfolded w1]
  from run have fr: "bucket w2 = bucket w" "tmp w2 = tmp w"
      "provider_requests w \<le> provider_requests w2"
      "provider_requests w2 \<le> provider_requests w + length documents * Suc (max_retries E)"
    by simp_all
  show ?thesis
  proof (cases r2)
    case (Inl e)
    with assms d have r: "res = Inl e" "w' = w2"
      by (simp_all add: from_documents_def Let_def)
    from run Inl have "\<exists>i \<ge> provider_requests w. i + max_retries E < provider_requests w2
                        \<and> (\<forall>j \<le> max_retries E. request_fault E (i + j) \<noteq> None)
                        \<and> request_fault E (i + max_retries E) = Some e"
      by simp
    with r fr show ?thesis by simp
  next
    case (Inr vs)
    with assms d have r: "res = Inr \<lparr>vectors = vs, docstore = documents\<rparr>" "w' = w2"
      by (simp_all add: from_documents_def Let_def)
    from run Inr have "vs = map (embedding E) (map page_content documents)" by simp
    with r fr show ?thesis by (simp add: comp_def)
  qed
qed





section \<open>create_vector_store\<close>

lemmas create_vector_store_unfold =
  create_vector_store_def save_local_def upload_file_def published_def
  faiss_key_def pkl_key_def new_faiss_def Let_def emit_def update_conv'

text \<open>
  C1, as the claim states it, fails: the two uploads are made one after the other
  and nothing undoes the first. When the upload of the metadata file fails after the
  upload of the index file has succeeded, \<open>create_vector_store\<close> returns
  \<^verbatim>\<open>False\<close>, but the bucket now holds the new index file next to the
  metadata file of the earlier run.
\<close>

theorem create_vector_store_counterexample:
  "fst (create_vector_store pkl_upload_fails ''mail'' [new_document] mail_world) = Inr False
   \<and> published mail_world ''my_faiss_mail.faiss'' = Some (Faiss_file [[8]])
   \<and> published (snd (create_vector_store pkl_upload_fails ''mail'' [new_document] mail_world))
         ''my_faiss_mail.faiss'' = Some (Faiss_file [[11]])
   \<and> published (snd (create_vector_store pkl_upload_fails ''mail'' [new_document] mail_world))
         ''my_faiss_mail.pkl'' = Some (Pkl_file [old_document])"
  by (simp add: create_vector_store_def from_documents_def save_local_def upload_file_def
      published_def Let_def emit_def pkl_upload_fails_def no_faults_def mail_world_def
      mail_bucket_def new_document_def numeral_2_eq_2)

text \<open>
  C1, amended. When the index is built and its two files are written to the
  scratch directory, \<open>create_vector_store\<close> returns \<^verbatim>\<open>True\<close> exactly when
  both uploads succeed, and \<^verbatim>\<open>False\<close> otherwise; after \<^verbatim>\<open>True\<close> the
  bucket holds both new files. If the upload of the index file fails, the bucket is
  unchanged. If the upload of the index file succeeds and the upload of the metadata
  file fails, the bucket holds the new index file and the metadata file it held
  before: the first upload is not undone. If building the index raises, or writing
  one of the two scratch files raises, the exception leaves the function (it
  returns neither value) and the bucket is unchanged. No other key of the bucket is
  touched in any case.
\<close>

theorem create_vector_store_uploads:
  "(\<forall>ix. fst (from_documents E documents w) = Inr ix
        \<and> write_fault E (''/tmp/'' @ faiss_key style_key) = None
        \<and> write_fault E (''/tmp/'' @ pkl_key style_key) = None \<longrightarrow>
      (fst (create_vector_store E style_key documents w) = Inr True
         \<longleftrightarrow> bucket w \<noteq> None \<and> upload_fault E (faiss_key style_key) = None
               \<and> upload_fault E (pkl_key style_key) = None)
      \<and> (fst (create_vector_store E style_key documents w) \<noteq> Inr True \<longrightarrow>
            fst (create_vector_store E style_key documents w) = Inr False)
      \<and> (fst (create_vector_store E style_key documents w) = Inr True \<longrightarrow>
            published (snd (create_vector_store E style_key documents w)) (faiss_key style_key)
              = Some (new_faiss E documents)
            \<and> published (snd (create_vector_store E style_key documents w)) (pkl_key style_key)
              = Some (Pkl_file documents))
      \<and> (bucket w = None \<or> upload_fault E (faiss_key style_key) \<noteq> None \<longrightarrow>
            bucket (snd (create_vector_store E style_key documents w)) = bucket w)
      \<and> (bucket w \<noteq> None \<and> upload_fault E (faiss_key style_key) = None
            \<and> upload_fault E (pkl_key style_key) \<noteq> None \<longrightarrow>
            published (snd (create_vector_store E style_key documents w)) (faiss_key style_key)
              = Some (new_faiss E documents)
            \<and> published (snd (create_vector_store E style_key documents w)) (pkl_key style_key)
              = published w (pkl_key style_key)))
   \<and> (\<forall>e. fst (from_documents E documents w) = Inl e \<longrightarrow>
         fst (create_vector_store E style_key documents w) = Inl e
         \<and> bucket (snd (create_vector_store E style_key documents w)) = bucket w)
   \<and> (\<forall>ix e. fst (from_documents E documents w) = Inr ix
         \<and> (write_fault E (''/tmp/'' @ faiss_key style_key) = Some e
              \<or> write_fault E (''/tmp/'' @ faiss_key style_key) = None
                 \<and> write_fault E (''/tmp/'' @ pkl_key style_key) = Some e) \<longrightarrow>
         fst (create_vector_store E style_key documents w) = Inl e
         \<and> bucket (snd (create_vector_store E style_key documents w)) = bucket w)
   \<and> (\<forall>k. k \<noteq> faiss_key style_key \<and> k \<noteq> pkl_key style_key \<longrightarrow>
         published (snd (create_vector_store E style_key documents w)) k = published w k)"
proof -
  obtain res w1 where d: "from_documents E documents w = (res, w1)"
    by (cases "from_documents E documents w")
  from from_documents_run [OF d] have bw: "bucket w1 = bucket w"
    by simp
  show ?thesis
  proof (cases res)
    case (Inl e)
    with d bw show ?thesis
      by (simp add: create_vector_store_def published_def)
  next
    case (Inr ix)
    from from_documents_run [OF d] Inr
    have ix: "vectors ix = map (\<lambda>d. embedding E (page_content d)) documents"
        "docstore ix = documents"
      by simp_all
    note d' = d [unfolded Inr]
    show ?thesis
    proof (cases "write_fault E (''/tmp/'' @ faiss_key style_key)")
      case wf: (Some e)
      with d' bw show ?thesis
        by (simp add: create_vector_store_unfold)
    next
      case wf: None
      show ?thesis
      proof (cases "write_fault E (''/tmp/'' @ pkl_key style_key)")
        case wp: (Some e)
        with d' bw wf show ?thesis
          by (simp add: create_vector_store_unfold)
      next
        case wp: None
        show ?thesis
        proof (cases "bucket w")
          case None
          with d' bw wf wp ix show ?thesis
            by (simp add: create_vector_store_unfold split: option.split)
        next
          case (Some objs)
          show ?thesis
          proof (cases "upload_fault E (faiss_key style_key)")
            case f: (Some e)
            with d' bw wf wp ix Some show ?thesis
              by (simp add: create_vector_store_unfold)
          next
            case f: None
            show ?thesis
            proof (cases "upload_fault E (pkl_key style_key)")
              case p: (Some e)
              with d' bw wf wp ix Some f show ?thesis
                by (simp add: create_vector_store_unfold)
            next
              case p: None
              with d' bw wf wp ix Some f show ?thesis
                by (simp add: create_vector_store_unfold)
            qed
          qed
        qed
      qed
    qed
  qed
qed

theorem create_vector_store_uploads_witness:
  "fst (from_documents no_faults [new_document] mail_world)
     = Inr \<lparr>vectors = [[11]], docstore = [new_document]\<rparr>
   \<and> write_fault no_faults (''/tmp/'' @ faiss_key ''mail'') = None
   \<and> write_fault no_faults (''/tmp/'' @ pkl_key ''mail'') = None
   \<and> bucket mail_world \<noteq> None
   \<and> upload_fault no_faults (faiss_key ''mail'') = None
   \<and> upload_fault no_faults (pkl_key ''mail'') = None
   \<and> fst (create_vector_store no_faults ''mail'' [new_document] mail_world) = Inr True
   \<and> published (snd (create_vector_store no_faults ''mail'' [new_document] mail_world))
        (faiss_key ''mail'') = Some (new_faiss no_faults [new_document])
   \<and> published (snd (create_vector_store no_faults ''mail'' [new_document] mail_world))
        (pkl_key ''mail'') = Some (Pkl_file [new_document])
   \<and> upload_fault pkl_upload_fails (faiss_key ''mail'') = None
   \<and> upload_fault pkl_upload_fails (pkl_key ''mail'') \<noteq> None
   \<and> fst (create_vector_store pkl_upload_fails ''mail'' [new_document] mail_world) = Inr False
   \<and> published (snd (create_vector_store pkl_upload_fails ''mail'' [new_document] mail_world))
        (faiss_key ''mail'') = Some (new_faiss pkl_upload_fails [new_document])
   \<and> published (snd (create_vector_store pkl_upload_fails ''mail'' [new_document] mail_world))
        (pkl_key ''mail'') = published mail_world (pkl_key ''mail'')
   \<and> ''mail/b.pdf'' \<noteq> faiss_key ''mail'' \<and> ''mail/b.pdf'' \<noteq> pkl_key ''mail''
   \<and> published (snd (create_vector_store no_faults ''mail'' [new_document] mail_world))
        ''mail/b.pdf'' = published mail_world ''mail/b.pdf''
   \<and> upload_fault faiss_upload_fails (faiss_key ''mail'') \<noteq> None
   \<and> fst (create_vector_store faiss_upload_fails ''mail'' [new_document] mail_world) = Inr False
   \<and> bucket (snd (create_vector_store faiss_upload_fails ''mail'' [new_document] mail_world))
        = bucket mail_world
   \<and> fst (from_documents provider_down [new_document] mail_world)
        = Inl (OtherException ''ThrottlingException'')
   \<and> fst (create_vector_store provider_down ''mail'' [new_document] mail_world)
        = Inl (OtherException ''ThrottlingException'')
   \<and> bucket (snd (create_vector_store provider_down ''mail'' [new_document] mail_world))
        = bucket mail_world
   \<and> write_fault disk_full (''/tmp/'' @ faiss_key ''mail'') = None
   \<and> write_fault disk_full (''/tmp/'' @ pkl_key ''mail'') = Some (OtherException ''OSError'')
   \<and> fst (create_vector_store disk_full ''mail'' [new_document] mail_world)
        = Inl (OtherException ''OSError'')
   \<and> bucket (snd (create_vector_store disk_full ''mail'' [new_document] mail_world))
        = bucket mail_world"
proof -
  let ?ix = "\<lparr>vectors = [[11]], docstore = [new_document]\<rparr>"
  have a: "fst (from_documents no_faults [new_document] mail_world) = Inr ?ix"
    "fst (from_documents pkl_upload_fails [new_document] mail_world) = Inr ?ix"
    "fst (from_documents faiss_upload_fails [new_document] mail_world) = Inr ?ix"
    "fst (from_documents disk_full [new_document] mail_world) = Inr ?ix"
    by (simp_all add: from_documents_def no_faults_def pkl_upload_fails_def
        faiss_upload_fails_def disk_full_def mail_world_def new_document_def Let_def emit_def
        numeral_2_eq_2)
  have a': "fst (from_documents provider_down [new_document] mail_world)
        = Inl (OtherException ''ThrottlingException'')"
    by (simp add: from_documents_def provider_down_def no_faults_def mail_world_def
        new_document_def Let_def emit_def numeral_2_eq_2)
  have w: "write_fault no_faults (''/tmp/'' @ faiss_key ''mail'') = None"
    "write_fault no_faults (''/tmp/'' @ pkl_key ''mail'') = None"
    "write_fault pkl_upload_fails (''/tmp/'' @ faiss_key ''mail'') = None"
    "write_fault pkl_upload_fails (''/tmp/'' @ pkl_key ''mail'') = None"
    "write_fault faiss_upload_fails (''/tmp/'' @ faiss_key ''mail'') = None"
    "write_fault faiss_upload_fails (''/tmp/'' @ pkl_key ''mail'') = None"
    by (simp_all add: no_faults_def pkl_upload_fails_def faiss_upload_fails_def)
  have w': "write_fault disk_full (''/tmp/'' @ faiss_key ''mail'') = None"
    "write_fault disk_full (''/tmp/'' @ pkl_key ''mail'') = Some (OtherException ''OSError'')"
    by (simp_all add: disk_full_def no_faults_def faiss_key_def pkl_key_def)
  have b: "bucket mail_world \<noteq> None"
    by (simp add: mail_world_def)
  have c: "upload_fault no_faults (faiss_key ''mail'') = None"
    "upload_fault no_faults (pkl_key ''mail'') = None"
    by (simp_all add: no_faults_def)
  have d: "upload_fault pkl_upload_fails (faiss_key ''mail'') = None"
    "upload_fault pkl_upload_fails (pkl_key ''mail'') \<noteq> None"
    by (simp_all add: pkl_upload_fails_def no_faults_def faiss_key_def pkl_key_def)
  have e: "''mail/b.pdf'' \<noteq> faiss_key ''mail''" "''mail/b.pdf'' \<noteq> pkl_key ''mail''"
    by (simp_all add: faiss_key_def pkl_key_def)
  have f: "upload_fault faiss_upload_fails (faiss_key ''mail'') \<noteq> None"
    by (simp add: faiss_upload_fails_def no_faults_def faiss_key_def)
  note t1 = create_vector_store_uploads [of no_faults "[new_document]" mail_world "''mail''"]
  note t2 = create_vector_store_uploads [of pkl_upload_fails "[new_document]" mail_world "''mail''"]
  note t3 = create_vector_store_uploads
    [of faiss_upload_fails "[new_document]" mail_world "''mail''"]
  note t4 = create_vector_store_uploads [of provider_down "[new_document]" mail_world "''mail''"]
  note t5 = create_vector_store_uploads [of disk_full "[new_document]" mail_world "''mail''"]
  note s1 = t1 [THEN conjunct1, THEN spec, THEN mp, OF conjI [OF a(1) conjI [OF w(1) w(2)]]]
  note s2 = t2 [THEN conjunct1, THEN spec, THEN mp, OF conjI [OF a(2) conjI [OF w(3) w(4)]]]
  note s3 = t3 [THEN conjunct1, THEN spec, THEN mp, OF conjI [OF a(3) conjI [OF w(5) w(6)]]]
  note s4 = t4 [THEN conjunct2, THEN conjunct1, THEN spec, THEN mp, OF a']
  note s5 = t5 [THEN conjunct2, THEN conjunct2, THEN conjunct1, THEN spec, THEN spec, THEN mp,
    OF conjI [OF a(4) disjI2 [OF conjI [OF w'(1) w'(2)]]]]
  note s6 = t1 [THEN conjunct2, THEN conjunct2, THEN conjunct2, THEN spec, THEN mp,
    OF conjI [OF e(1) e(2)]]
  from s1 b c have 1:
    "fst (create_vector_store no_faults ''mail'' [new_document] mail_world) = Inr True"
    by simp
  with s1 have 2:
    "published (snd (create_vector_store no_faults ''mail'' [new_document] mail_world))
        (faiss_key ''mail'') = Some (new_faiss no_faults [new_document])"
    "published (snd (create_vector_store no_faults ''mail'' [new_document] mail_world))
        (pkl_key ''mail'') = Some (Pkl_file [new_document])"
    by simp_all
  from s2 b d have 3:
    "fst (create_vector_store pkl_upload_fails ''mail'' [new_document] mail_world) \<noteq> Inr True"
    by simp
  with s2 have 4:
    "fst (create_vector_store pkl_upload_fails ''mail'' [new_document] mail_world) = Inr False"
    by simp
  from s2 b d have 5:
    "published (snd (create_vector_store pkl_upload_fails ''mail'' [new_document] mail_world))
        (faiss_key ''mail'') = Some (new_faiss pkl_upload_fails [new_document])"
    "published (snd (create_vector_store pkl_upload_fails ''mail'' [new_document] mail_world))
        (pkl_key ''mail'') = published mail_world (pkl_key ''mail'')"
    by simp_all
  from s3 f have 7:
    "fst (create_vector_store faiss_upload_fails ''mail'' [new_document] mail_world) \<noteq> Inr True"
    "bucket (snd (create_vector_store faiss_upload_fails ''mail'' [new_document] mail_world))
        = bucket mail_world"
    by simp_all
  with s3 have 8:
    "fst (create_vector_store faiss_upload_fails ''mail'' [new_document] mail_world) = Inr False"
    by simp
  show ?thesis
    using a(1) a' w(1,2) w' b c d e f 1 2 4 5 s6 7(2) 8 s4 s5
    by (intro conjI) (assumption | simp)+
qed

end
